theory Spec2Isabelle
  imports Complex_Main
begin

section \<open>Data model of the session controller (class LiveManager)\<close>

text \<open>
  The embedding follows the current \<^verbatim>\<open>services/liveManager.ts\<close> (the version with
  \<^verbatim>\<open>hasActiveMic\<close>, \<^verbatim>\<open>streamAudioData\<close> and the reconnect-and-retry path) and the
  \<^verbatim>\<open>ConnectionState\<close> enum of \<^verbatim>\<open>types.ts\<close>.

  JavaScript numbers (sample values, device clock readings, buffer durations) are
  modelled as real numbers. Browser objects are identified by numbers handed out from a
  counter. Every effect the class has on its collaborators (observer callbacks, sends on
  the channel, closing of native audio resources, scheduled playback, timers) is appended
  to a chronological event log kept beside the fields of the class.
\<close>

datatype ConnectionState = DISCONNECTED | CONNECTING | CONNECTED | ERROR

datatype ctx_state = Suspended | Running | Closed

text \<open>An \<^verbatim>\<open>AudioContext\<close>: its identity, its \<^verbatim>\<open>state\<close> and its \<^verbatim>\<open>sampleRate\<close>.\<close>

record AudioContext =
  ctx_id :: nat
  ctx_status :: ctx_state
  ctx_rate :: nat

text \<open>
  The promise returned by \<^verbatim>\<open>ai.live.connect\<close>. A promise settles once: \<open>rejection\<close>
  is \<open>None\<close> when it resolves to the session \<open>sid\<close>, and the rejection message
  otherwise.
\<close>

record SessionPromise =
  sid :: nat
  rejection :: "string option"

text \<open>An \<^verbatim>\<open>AudioBuffer\<close>; its \<^verbatim>\<open>duration\<close> is length over sample rate.\<close>

record AudioBuffer =
  buf_length :: nat
  buf_rate :: nat

definition duration :: "AudioBuffer \<Rightarrow> real" where
  "duration b = real (buf_length b) / real (buf_rate b)"

text \<open>
  The observable effects.
  \<^item> \<open>Status\<close>, \<open>ErrorMsg\<close>, \<open>TextReceived\<close>: the three observer callbacks.
  \<^item> \<open>ContextCreated\<close>, \<open>ContextResumed\<close>, \<open>ContextClosed\<close>: \<^verbatim>\<open>new AudioContext()\<close>,
    \<^verbatim>\<open>resume()\<close>, \<^verbatim>\<open>close()\<close>.
  \<^item> \<open>NodeCreated\<close>, \<open>NodeDisconnected\<close>: analyser, media-stream source and script
    processor nodes.
  \<^item> \<open>SessionRequested\<close>: \<^verbatim>\<open>ai.live.connect(...)\<close>; \<open>SessionClosed\<close>: \<^verbatim>\<open>s.close()\<close>.
  \<^item> \<open>MicSend sid frame rate\<close>: the capture callback's
    \<^verbatim>\<open>sendRealtimeInput({media: createGeminiAudioBlob(downsampleTo16k(frame, rate))})\<close>.
  \<^item> \<open>ChunkSend sid chunk\<close>: the upload's
    \<^verbatim>\<open>sendRealtimeInput({media: createGeminiAudioBlob(chunk)})\<close>.
  \<^item> \<open>TextSend sid t\<close>: \<^verbatim>\<open>sendRealtimeInput({content: {parts: [{text: t}]}})\<close>.
  \<^item> \<open>Delay ms\<close>: \<^verbatim>\<open>await new Promise(r => setTimeout(r, ms))\<close>.
  \<^item> \<open>VizStarted n\<close>: the muted visualisation source over \<open>n\<close> samples was started.
  \<^item> \<open>SourceStart when dur\<close>: \<^verbatim>\<open>source.start(when)\<close> for a buffer of duration \<open>dur\<close>.
  \<^item> \<open>InterruptedSignal\<close>: the interruption branch of \<^verbatim>\<open>handleMessage\<close> was taken.
  \<^item> \<open>Called m\<close>: entry into a method of the class (a ghost event, used to count calls).
\<close>

datatype callee = M_connect | M_disconnect | M_streamAudioData "real list"

datatype event =
    Status ConnectionState
  | ErrorMsg string
  | TextReceived string
  | ContextCreated nat
  | ContextResumed nat
  | ContextClosed nat
  | NodeCreated nat
  | NodeDisconnected nat
  | SessionRequested nat
  | SessionClosed nat
  | MicSend nat "real list" nat
  | ChunkSend nat "real list"
  | TextSend nat string
  | Delay nat
  | VizStarted nat
  | SourceStart real real
  | InterruptedSignal
  | Called callee

text \<open>
  The fields of \<^verbatim>\<open>LiveManager\<close> (the unused \<^verbatim>\<open>session\<close> field and the API client
  are left out), the event log and the counter for fresh object identities.
\<close>

record LiveManager =
  inputContext :: "AudioContext option"
  outputContext :: "AudioContext option"
  sessionPromise :: "SessionPromise option"
  nextStartTime :: real
  scriptProcessor :: "nat option"
  inputSource :: "nat option"
  inputAnalyser :: "nat option"
  outputAnalyser :: "nat option"
  isProcessingFile :: bool
  hasActiveMic :: bool
  events :: "event list"
  next_id :: nat

definition initial :: LiveManager where
  "initial = \<lparr> inputContext = None, outputContext = None, sessionPromise = None,
     nextStartTime = 0, scriptProcessor = None, inputSource = None,
     inputAnalyser = None, outputAnalyser = None, isProcessingFile = False,
     hasActiveMic = False, events = [], next_id = 0 \<rparr>"

definition emit :: "event \<Rightarrow> LiveManager \<Rightarrow> LiveManager" where
  "emit e s = s\<lparr> events := events s @ [e] \<rparr>"

text \<open>The events appended to the log between an earlier state and a later one.\<close>

definition emitted :: "LiveManager \<Rightarrow> LiveManager \<Rightarrow> event list" where
  "emitted s s' = drop (length (events s)) (events s')"

definition statuses :: "event list \<Rightarrow> ConnectionState list" where
  "statuses es = concat (map (\<lambda>e. case e of Status c \<Rightarrow> [c] | _ \<Rightarrow> []) es)"

section \<open>disconnect\<close>

text \<open>
  \<^verbatim>\<open>disconnect()\<close>: clears the two flags, asks the session (if its promise resolves) to
  close, disconnects the capture nodes, closes each context that is not already closed,
  nulls five fields, resets the cursor and notifies \<^verbatim>\<open>DISCONNECTED\<close>. The analyser fields
  are not assigned.
\<close>

definition close_session :: "LiveManager \<Rightarrow> LiveManager" where
  "close_session s =
     (case sessionPromise s of
        None \<Rightarrow> s
      | Some p \<Rightarrow> (if rejection p = None then emit (SessionClosed (sid p)) s else s))"

definition disconnect_node :: "nat option \<Rightarrow> LiveManager \<Rightarrow> LiveManager" where
  "disconnect_node n s = (case n of None \<Rightarrow> s | Some k \<Rightarrow> emit (NodeDisconnected k) s)"

definition close_context :: "AudioContext option \<Rightarrow> LiveManager \<Rightarrow> LiveManager" where
  "close_context c s =
     (case c of
        None \<Rightarrow> s
      | Some x \<Rightarrow> (if ctx_status x \<noteq> Closed then emit (ContextClosed (ctx_id x)) s else s))"

definition disconnect :: "LiveManager \<Rightarrow> LiveManager" where
  "disconnect s =
     (let s0 = emit (Called M_disconnect) s;
          s1 = s0\<lparr> isProcessingFile := False, hasActiveMic := False \<rparr>;
          s2 = close_session s1;
          s3 = disconnect_node (scriptProcessor s2) s2;
          s4 = disconnect_node (inputSource s3) s3;
          s5 = close_context (inputContext s4) s4;
          s6 = close_context (outputContext s5) s5;
          s7 = s6\<lparr> sessionPromise := None, inputContext := None, outputContext := None,
                    scriptProcessor := None, inputSource := None, nextStartTime := 0 \<rparr>
      in emit (Status DISCONNECTED) s7)"

definition getInputAnalyser :: "LiveManager \<Rightarrow> nat option" where
  "getInputAnalyser s = inputAnalyser s"

definition getOutputAnalyser :: "LiveManager \<Rightarrow> nat option" where
  "getOutputAnalyser s = outputAnalyser s"

definition isMicEnabled :: "LiveManager \<Rightarrow> bool" where
  "isMicEnabled s = hasActiveMic s"

section \<open>The capture callback\<close>

text \<open>
  One invocation of \<^verbatim>\<open>scriptProcessor.onaudioprocess\<close> with the channel data of the
  frame. \<open>send_throws\<close> says whether \<^verbatim>\<open>sendRealtimeInput\<close> throws for this frame (the
  callback catches and logs it). The send runs in a \<^verbatim>\<open>then\<close> of the session promise, so a
  rejected promise sends nothing.
\<close>

record MicFrame =
  channelData :: "real list"
  send_throws :: bool

definition onaudioprocess :: "LiveManager \<Rightarrow> MicFrame \<Rightarrow> LiveManager" where
  "onaudioprocess s e =
     (case sessionPromise s of
        None \<Rightarrow> s
      | Some p \<Rightarrow>
         (case inputContext s of
            None \<Rightarrow> s
          | Some c \<Rightarrow>
             if isProcessingFile s then s
             else if rejection p = None \<and> \<not> send_throws e
                  then emit (MicSend (sid p) (channelData e) (ctx_rate c)) s
                  else s))"

text \<open>
  The browser delivers a frame only to an installed handler: \<^verbatim>\<open>connect\<close> installs it on
  the script processor it creates and \<^verbatim>\<open>disconnect\<close> removes it.
\<close>

definition deliver_frame :: "LiveManager \<Rightarrow> MicFrame \<Rightarrow> LiveManager" where
  "deliver_frame s e = (if scriptProcessor s = None then s else onaudioprocess s e)"

section \<open>Inbound dispatch and the playback cursor\<close>

text \<open>
  A part of a model turn: optional text and optional base64 audio. \<^verbatim>\<open>pcmToAudioBuffer\<close>
  and \<^verbatim>\<open>decodePCM\<close> live in \<^verbatim>\<open>utils/audioUtils\<close>; their composition is the parameter
  \<open>decode\<close>, which returns \<open>None\<close> where the source's \<^verbatim>\<open>try\<close> block throws.
\<close>

record Part =
  part_text :: "string option"
  part_data :: "string option"

record LiveServerMessage =
  parts :: "Part list"
  interrupted :: bool
  turnComplete :: bool

definition truthy :: "string option \<Rightarrow> bool" where
  "truthy x = (case x of None \<Rightarrow> False | Some t \<Rightarrow> t \<noteq> [])"

text \<open>
  One iteration of the loop over the parts; \<open>now\<close> is the reading of
  \<^verbatim>\<open>outputContext.currentTime\<close> taken in that iteration.
\<close>

definition handlePart :: "(string \<Rightarrow> AudioBuffer option) \<Rightarrow> real \<Rightarrow> LiveManager \<Rightarrow> Part \<Rightarrow> LiveManager" where
  "handlePart decode now s p =
     (let s1 = (if truthy (part_text p) then emit (TextReceived (the (part_text p))) s else s)
      in if truthy (part_data p) then
           (let s2 = s1\<lparr> nextStartTime := max (nextStartTime s1) now \<rparr>
            in case decode (the (part_data p)) of
                 None \<Rightarrow> s2
               | Some b \<Rightarrow>
                   (let s3 = emit (SourceStart (nextStartTime s2) (duration b)) s2
                    in s3\<lparr> nextStartTime := nextStartTime s3 + duration b \<rparr>))
         else s1)"

fun handleParts :: "(string \<Rightarrow> AudioBuffer option) \<Rightarrow> (nat \<Rightarrow> real) \<Rightarrow> nat \<Rightarrow> LiveManager \<Rightarrow> Part list \<Rightarrow> LiveManager" where
  "handleParts decode clock i s [] = s"
| "handleParts decode clock i s (p # ps) =
     handleParts decode clock (Suc i) (handlePart decode (clock i) s p) ps"

text \<open>
  \<^verbatim>\<open>handleMessage\<close>; \<open>clock i\<close> is the device time read while part \<open>i\<close> of the message is
  handled. The handler runs to completion before the next message is handled.
\<close>

definition handleMessage :: "(string \<Rightarrow> AudioBuffer option) \<Rightarrow> (nat \<Rightarrow> real) \<Rightarrow> LiveManager \<Rightarrow> LiveServerMessage \<Rightarrow> LiveManager" where
  "handleMessage decode clock s m =
     (if outputContext s = None then s
      else
        (let s1 = handleParts decode clock 0 s (parts m)
         in if interrupted m then (emit InterruptedSignal s1)\<lparr> nextStartTime := 0 \<rparr> else s1))"

fun handleMessages :: "(string \<Rightarrow> AudioBuffer option) \<Rightarrow> LiveManager \<Rightarrow> ((nat \<Rightarrow> real) \<times> LiveServerMessage) list \<Rightarrow> LiveManager" where
  "handleMessages decode s [] = s"
| "handleMessages decode s (cm # ms) =
     handleMessages decode (handleMessage decode (fst cm) s (snd cm)) ms"

text \<open>The channel callbacks registered by \<^verbatim>\<open>connect\<close>.\<close>

definition onopen :: "LiveManager \<Rightarrow> LiveManager" where
  "onopen s = emit (Status CONNECTED) s"

definition onclose :: "LiveManager \<Rightarrow> LiveManager" where
  "onclose s = emit (Status DISCONNECTED) s"

definition onerror :: "string \<Rightarrow> LiveManager \<Rightarrow> LiveManager" where
  "onerror msg s =
     emit (ErrorMsg (if msg = [] then ''Unknown error'' else msg)) (emit (Status ERROR) s)"

section \<open>connect\<close>

text \<open>
  What the browser and the SDK do during one call of \<^verbatim>\<open>connect()\<close>: where (if anywhere)
  a statement of the \<^verbatim>\<open>try\<close> block throws and with which message, whether the new
  contexts start suspended, the hardware sample rate, whether \<^verbatim>\<open>getUserMedia\<close> grants the
  microphone, and how the session promise will settle. \<^verbatim>\<open>ai.live.connect\<close> is not awaited,
  so a rejected handshake does not make \<^verbatim>\<open>connect()\<close> throw.
\<close>

datatype fail_point = AtInputContext | AtOutputContext | AtResume | AtLiveConnect

record ConnectEnv =
  throws_at :: "(fail_point \<times> string) option"
  input_suspended :: bool
  output_suspended :: bool
  hw_rate :: nat
  mic_granted :: bool
  handshake :: "string option"

definition fails :: "ConnectEnv \<Rightarrow> fail_point \<Rightarrow> bool" where
  "fails env pt = (case throws_at env of None \<Rightarrow> False | Some qm \<Rightarrow> fst qm = pt)"

definition fail_msg :: "ConnectEnv \<Rightarrow> string" where
  "fail_msg env = (case throws_at env of None \<Rightarrow> [] | Some qm \<Rightarrow> snd qm)"

text \<open>The \<^verbatim>\<open>catch\<close> block of \<^verbatim>\<open>connect\<close>: clean up, report, rethrow.\<close>

definition connect_failed :: "string \<Rightarrow> LiveManager \<Rightarrow> (string + unit) \<times> LiveManager" where
  "connect_failed msg s =
     (let s1 = disconnect s;
          s2 = emit (ErrorMsg msg) s1;
          s3 = emit (Status ERROR) s2
      in (Inl msg, s3))"

definition new_context :: "bool \<Rightarrow> nat \<Rightarrow> LiveManager \<Rightarrow> AudioContext \<times> LiveManager" where
  "new_context susp rate s =
     (\<lparr> ctx_id = next_id s, ctx_status = (if susp then Suspended else Running), ctx_rate = rate \<rparr>,
      emit (ContextCreated (next_id s)) (s\<lparr> next_id := Suc (next_id s) \<rparr>))"

definition new_node :: "LiveManager \<Rightarrow> nat \<times> LiveManager" where
  "new_node s = (next_id s, emit (NodeCreated (next_id s)) (s\<lparr> next_id := Suc (next_id s) \<rparr>))"

text \<open>The microphone block: on denial only \<^verbatim>\<open>hasActiveMic\<close> is written.\<close>

definition mic_setup :: "ConnectEnv \<Rightarrow> LiveManager \<Rightarrow> LiveManager" where
  "mic_setup env s =
     (if mic_granted env then
        (let (src, s1) = new_node s;
             s2 = s1\<lparr> inputSource := Some src \<rparr>;
             (proc, s3) = new_node s2;
             s4 = s3\<lparr> scriptProcessor := Some proc \<rparr>
         in s4\<lparr> hasActiveMic := True \<rparr>)
      else s\<lparr> hasActiveMic := False \<rparr>)"

definition open_session :: "ConnectEnv \<Rightarrow> LiveManager \<Rightarrow> LiveManager" where
  "open_session env s =
     emit (SessionRequested (next_id s))
       (s\<lparr> sessionPromise := Some \<lparr> sid = next_id s, rejection = handshake env \<rparr>,
           next_id := Suc (next_id s) \<rparr>)"

text \<open>The statements of the \<^verbatim>\<open>try\<close> block, in groups between the points where it can throw.\<close>

definition connect_begin :: "LiveManager \<Rightarrow> LiveManager" where
  "connect_begin s = emit (Status CONNECTING) (emit (Called M_connect) s)"

definition create_input :: "ConnectEnv \<Rightarrow> LiveManager \<Rightarrow> LiveManager" where
  "create_input env s =
     (let (ic, s1) = new_context (input_suspended env) (hw_rate env) s
      in s1\<lparr> inputContext := Some ic \<rparr>)"

definition create_output :: "ConnectEnv \<Rightarrow> LiveManager \<Rightarrow> LiveManager" where
  "create_output env s =
     (let (oc, s1) = new_context (output_suspended env) (hw_rate env) s
      in s1\<lparr> outputContext := Some oc \<rparr>)"

definition is_suspended :: "AudioContext option \<Rightarrow> bool" where
  "is_suspended c = (case c of None \<Rightarrow> False | Some x \<Rightarrow> ctx_status x = Suspended)"

text \<open>\<^verbatim>\<open>if (outputContext.state === 'suspended') await outputContext.resume()\<close>.\<close>

definition resume_output :: "LiveManager \<Rightarrow> LiveManager" where
  "resume_output s =
     (case outputContext s of
        None \<Rightarrow> s
      | Some c \<Rightarrow>
          if ctx_status c = Suspended
          then emit (ContextResumed (ctx_id c)) (s\<lparr> outputContext := Some (c\<lparr> ctx_status := Running \<rparr>) \<rparr>)
          else s)"

definition create_analysers :: "LiveManager \<Rightarrow> LiveManager" where
  "create_analysers s =
     (let (ia, s1) = new_node s;
          s2 = s1\<lparr> inputAnalyser := Some ia \<rparr>;
          (oa, s3) = new_node s2
      in s3\<lparr> outputAnalyser := Some oa \<rparr>)"

definition connect :: "ConnectEnv \<Rightarrow> LiveManager \<Rightarrow> (string + unit) \<times> LiveManager" where
  "connect env s =
     (let s1 = connect_begin s
      in if fails env AtInputContext then connect_failed (fail_msg env) s1
         else
          (let s2 = create_input env s1
           in if fails env AtOutputContext then connect_failed (fail_msg env) s2
              else
               (let s3 = create_output env s2
                in if is_suspended (outputContext s3) \<and> fails env AtResume
                   then connect_failed (fail_msg env) s3
                   else
                    (let s4 = mic_setup env (create_analysers (resume_output s3))
                     in if fails env AtLiveConnect then connect_failed (fail_msg env) s4
                        else (Inr (), open_session env s4)))))"

section \<open>Upload: normalisation, streaming, retry\<close>

text \<open>
  Peak normalisation, as the two index loops of \<^verbatim>\<open>sendAudioFile\<close>: the first finds the
  largest absolute sample, the second multiplies every element in place.
\<close>

definition maxVal :: "real list \<Rightarrow> real" where
  "maxVal data = fold (\<lambda>i m. if \<bar>data ! i\<bar> > m then \<bar>data ! i\<bar> else m) [0..<length data] 0"

definition scale_all :: "real \<Rightarrow> real list \<Rightarrow> real list" where
  "scale_all scale data = fold (\<lambda>i d. d[i := d ! i * scale]) [0..<length data] data"

definition peak_normalize :: "real list \<Rightarrow> real list" where
  "peak_normalize data =
     (if maxVal data > 0 then scale_all (0.95 / maxVal data) data else data)"

text \<open>\<^verbatim>\<open>String.prototype.includes\<close> on messages.\<close>

fun starts_with :: "string \<Rightarrow> string \<Rightarrow> bool" where
  "starts_with s [] = True"
| "starts_with [] (c # cs) = False"
| "starts_with (x # xs) (c # cs) = (x = c \<and> starts_with xs cs)"

fun str_includes :: "string \<Rightarrow> string \<Rightarrow> bool" where
  "str_includes [] sub = (sub = [])"
| "str_includes (x # xs) sub = (starts_with (x # xs) sub \<or> str_includes xs sub)"

definition transient :: "string \<Rightarrow> bool" where
  "transient msg =
     (str_includes msg ''unavailable'' \<or> str_includes msg ''timeout'' \<or> str_includes msg ''closed''
      \<or> str_includes msg ''Session not active'')"

definition CHUNK_SIZE :: nat where
  "CHUNK_SIZE = 8192"

definition completion_prompt :: string where
  "completion_prompt = ''I have finished playing. Generate a musical continuation now.''"

text \<open>
  What happens around one call of \<^verbatim>\<open>streamAudioData\<close>: whether the send of the chunk at
  offset \<open>i\<close> throws (and how the thrown value prints), whether the final text send throws
  (and its message), whether the visualisation block throws (it is caught), and which
  microphone frames the browser delivers while the upload waits out the pacing delay after
  the chunk at offset \<open>i\<close>.
\<close>

record StreamEnv =
  chunk_throws :: "nat \<Rightarrow> string option"
  text_throws :: "string option"
  viz_throws :: bool
  mic_frames :: "nat \<Rightarrow> MicFrame list"

text \<open>
  The \<^verbatim>\<open>for\<close> loop of \<^verbatim>\<open>streamAudioData\<close>, from offset \<open>i\<close>, on the session \<open>sn\<close> that was
  awaited before the loop. The events logged after a \<open>Delay\<close> and before the upload's next
  event happen during that wait.
\<close>

function stream_loop :: "StreamEnv \<Rightarrow> nat \<Rightarrow> real list \<Rightarrow> nat \<Rightarrow> LiveManager \<Rightarrow> (string + unit) \<times> LiveManager" where
  "stream_loop env sn data i s =
     (if i < length data then
        (case chunk_throws env i of
           Some e \<Rightarrow> (Inl (''Failed to send chunk: '' @ e), s)
         | None \<Rightarrow>
             stream_loop env sn data (i + CHUNK_SIZE)
               (foldl deliver_frame
                  (emit (Delay 50) (emit (ChunkSend sn (take CHUNK_SIZE (drop i data))) s))
                  (mic_frames env i)))
      else (Inr (), s))"
  by pat_completeness auto
termination
  by (relation "measure (\<lambda>(env, sn, data, i, s). length data - i)") (auto simp: CHUNK_SIZE_def)

definition start_viz :: "StreamEnv \<Rightarrow> real list \<Rightarrow> LiveManager \<Rightarrow> LiveManager" where
  "start_viz env data s =
     (if inputContext s \<noteq> None \<and> inputAnalyser s \<noteq> None \<and> \<not> viz_throws env
      then emit (VizStarted (length data)) s else s)"

definition streamAudioData :: "StreamEnv \<Rightarrow> real list \<Rightarrow> LiveManager \<Rightarrow> (string + unit) \<times> LiveManager" where
  "streamAudioData env data s =
     (let s0 = emit (Called (M_streamAudioData data)) s
      in case sessionPromise s0 of
           None \<Rightarrow> (Inl ''Session not active'', s0)
         | Some p \<Rightarrow>
            (case rejection p of
               Some msg \<Rightarrow> (Inl msg, s0)
             | None \<Rightarrow>
                (let (r, s2) = stream_loop env (sid p) data 0 (start_viz env data s0)
                 in case r of
                      Inl e \<Rightarrow> (Inl e, s2)
                    | Inr u \<Rightarrow>
                       (case text_throws env of
                          Some m \<Rightarrow> (Inl m, s2)
                        | None \<Rightarrow> (Inr (), emit (TextSend (sid p) completion_prompt) s2)))))"

text \<open>
  What happens around one call of \<^verbatim>\<open>sendAudioFile\<close>: whether a \<^verbatim>\<open>resume()\<close> rejects or
  the constructor of the decoding context throws (all three stand before the first
  \<^verbatim>\<open>try\<close>), the outcome of \<^verbatim>\<open>arrayBuffer\<close>, \<^verbatim>\<open>decodeAudioData\<close> and \<^verbatim>\<open>resampleTo16k\<close> on
  the file (a message, or the resampled samples), and the environments of the first
  streaming attempt, of the reconnect and of the second attempt.
\<close>

record UploadEnv =
  out_resume_throws :: "string option"
  in_resume_throws :: "string option"
  decode_ctx_throws :: "string option"
  decoded :: "string + real list"
  first_attempt :: StreamEnv
  reconnect :: ConnectEnv
  second_attempt :: StreamEnv

text \<open>Lines 186 to 231: the guard, the mute flag, the resumes, decoding and normalising.\<close>

definition resume_input :: "LiveManager \<Rightarrow> LiveManager" where
  "resume_input s =
     (case inputContext s of
        None \<Rightarrow> s
      | Some c \<Rightarrow>
          if ctx_status c = Suspended
          then emit (ContextResumed (ctx_id c)) (s\<lparr> inputContext := Some (c\<lparr> ctx_status := Running \<rparr>) \<rparr>)
          else s)"

definition decode_context :: "LiveManager \<Rightarrow> LiveManager" where
  "decode_context s =
     (if inputContext s = None
      then emit (ContextCreated (next_id s)) (s\<lparr> next_id := Suc (next_id s) \<rparr>)
      else s)"

definition prepare :: "UploadEnv \<Rightarrow> LiveManager \<Rightarrow> (string + real list) \<times> LiveManager" where
  "prepare env s =
     (if sessionPromise s = None then (Inl ''Session not active'', s)
      else
       (let s1 = s\<lparr> isProcessingFile := True \<rparr>
        in if is_suspended (outputContext s1) \<and> out_resume_throws env \<noteq> None
           then (Inl (the (out_resume_throws env)), s1)
           else
            (let s2 = resume_output s1
             in if is_suspended (inputContext s2) \<and> in_resume_throws env \<noteq> None
                then (Inl (the (in_resume_throws env)), s2)
                else
                 (let s3 = resume_input s2
                  in if inputContext s3 = None \<and> decode_ctx_throws env \<noteq> None
                     then (Inl (the (decode_ctx_throws env)), s3)
                     else
                      (let s4 = decode_context s3
                       in case decoded env of
                            Inl m \<Rightarrow> (Inl (''Failed to decode audio file: '' @ m),
                                      s4\<lparr> isProcessingFile := False \<rparr>)
                          | Inr raw \<Rightarrow> (Inr (peak_normalize raw), s4))))))"

text \<open>Lines 233 to 251: the first attempt, the retry on a transient failure, \<^verbatim>\<open>finally\<close>.\<close>

definition finally_unmute :: "LiveManager \<Rightarrow> LiveManager" where
  "finally_unmute s = s\<lparr> isProcessingFile := False \<rparr>"

definition upload_with_retry :: "UploadEnv \<Rightarrow> real list \<Rightarrow> LiveManager \<Rightarrow> (string + unit) \<times> LiveManager" where
  "upload_with_retry env data s =
     (let (r1, s1) = streamAudioData (first_attempt env) data s
      in case r1 of
           Inr u \<Rightarrow> (Inr (), finally_unmute s1)
         | Inl msg \<Rightarrow>
            if transient msg then
              (let s2 = disconnect s1;
                   (rc, s3) = connect (reconnect env) s2
               in case rc of
                    Inl m \<Rightarrow> (Inl m, finally_unmute s3)
                  | Inr u \<Rightarrow>
                     (let (r2, s4) = streamAudioData (second_attempt env) data s3
                      in (r2, finally_unmute s4)))
            else (Inl msg, finally_unmute s1))"

definition sendAudioFile :: "UploadEnv \<Rightarrow> LiveManager \<Rightarrow> (string + unit) \<times> LiveManager" where
  "sendAudioFile env s =
     (let (r, s1) = prepare env s
      in case r of
           Inl m \<Rightarrow> (Inl m, s1)
         | Inr data \<Rightarrow> upload_with_retry env data s1)"

section \<open>Stimuli and the status the observer holds\<close>

text \<open>
  The stimuli that make the class notify its status observer: the public methods and the
  three channel callbacks.
\<close>

datatype stimulus =
    Connect ConnectEnv
  | Disconnect
  | OnOpen
  | OnClose
  | OnError string
  | Upload UploadEnv

fun apply_stimulus :: "LiveManager \<Rightarrow> stimulus \<Rightarrow> LiveManager" where
  "apply_stimulus s (Connect env) = snd (connect env s)"
| "apply_stimulus s Disconnect = disconnect s"
| "apply_stimulus s OnOpen = onopen s"
| "apply_stimulus s OnClose = onclose s"
| "apply_stimulus s (OnError msg) = onerror msg s"
| "apply_stimulus s (Upload env) = snd (sendAudioFile env s)"

fun run :: "LiveManager \<Rightarrow> stimulus list \<Rightarrow> LiveManager" where
  "run s [] = s"
| "run s (x # xs) = run (apply_stimulus s x) xs"

text \<open>
  The status the observer holds: the last one it was notified of, \<^verbatim>\<open>DISCONNECTED\<close> before
  any notification (the initial value in \<^verbatim>\<open>App.tsx\<close>).
\<close>

definition current_status :: "LiveManager \<Rightarrow> ConnectionState" where
  "current_status s = last (DISCONNECTED # statuses (events s))"

text \<open>
  The transition relation as the specification words it: \<^verbatim>\<open>DISCONNECTED\<close> to
  \<^verbatim>\<open>CONNECTING\<close>, \<^verbatim>\<open>CONNECTING\<close> to \<^verbatim>\<open>CONNECTED\<close>, \<^verbatim>\<open>CONNECTING\<close> or \<^verbatim>\<open>CONNECTED\<close> to
  \<^verbatim>\<open>ERROR\<close>, any state to \<^verbatim>\<open>DISCONNECTED\<close>, and \<^verbatim>\<open>ERROR\<close> to \<^verbatim>\<open>CONNECTING\<close> (a fresh
  connect).
\<close>

definition spec_transition :: "ConnectionState \<Rightarrow> ConnectionState \<Rightarrow> bool" where
  "spec_transition a b =
     ((a = DISCONNECTED \<and> b = CONNECTING) \<or> (a = CONNECTING \<and> b = CONNECTED)
      \<or> ((a = CONNECTING \<or> a = CONNECTED) \<and> b = ERROR) \<or> b = DISCONNECTED
      \<or> (a = ERROR \<and> b = CONNECTING))"

text \<open>The relation the code follows: the same, and \<^verbatim>\<open>DISCONNECTED\<close> to \<^verbatim>\<open>ERROR\<close>.\<close>

definition code_transition :: "ConnectionState \<Rightarrow> ConnectionState \<Rightarrow> bool" where
  "code_transition a b = (spec_transition a b \<or> (a = DISCONNECTED \<and> b = ERROR))"

fun chain :: "(ConnectionState \<Rightarrow> ConnectionState \<Rightarrow> bool) \<Rightarrow> ConnectionState \<Rightarrow> ConnectionState list \<Rightarrow> bool" where
  "chain R a [] = True"
| "chain R a (b # bs) = (R a b \<and> chain R b bs)"

text \<open>
  A stimulus arrives in a state the specification names for it: \<^verbatim>\<open>connect()\<close> while
  \<^verbatim>\<open>DISCONNECTED\<close> or \<^verbatim>\<open>ERROR\<close>, channel open while \<^verbatim>\<open>CONNECTING\<close>, channel error while
  \<^verbatim>\<open>CONNECTING\<close> or \<^verbatim>\<open>CONNECTED\<close>; close, \<^verbatim>\<open>disconnect()\<close> and uploads at any time.
\<close>

fun enabled :: "ConnectionState \<Rightarrow> stimulus \<Rightarrow> bool" where
  "enabled c (Connect env) = (c = DISCONNECTED \<or> c = ERROR)"
| "enabled c OnOpen = (c = CONNECTING)"
| "enabled c (OnError msg) = (c = CONNECTING \<or> c = CONNECTED)"
| "enabled c x = True"

fun well_driven :: "LiveManager \<Rightarrow> stimulus list \<Rightarrow> bool" where
  "well_driven s [] = True"
| "well_driven s (x # xs) = (enabled (current_status s) x \<and> well_driven (apply_stimulus s x) xs)"

section \<open>Notions used to state and prove the properties\<close>

text \<open>A later state extends an earlier one when its log is the earlier log plus more events.\<close>

definition extends :: "LiveManager \<Rightarrow> LiveManager \<Rightarrow> bool" where
  "extends s s' = (events s' = events s @ emitted s s')"

text \<open>
  A log is gapless from a bound when every scheduled chunk starts at or after the end of
  the chunk scheduled before it (or the bound), up to the next interruption, after which
  there is no bound; durations are not negative.
\<close>

fun gapless_from :: "real option \<Rightarrow> event list \<Rightarrow> bool" where
  "gapless_from b [] = True"
| "gapless_from b (SourceStart a d # es) =
     ((case b of None \<Rightarrow> True | Some c \<Rightarrow> c \<le> a) \<and> 0 \<le> d \<and> gapless_from (Some (a + d)) es)"
| "gapless_from b (InterruptedSignal # es) = gapless_from None es"
| "gapless_from b (e # es) = gapless_from b es"

definition is_start :: "event \<Rightarrow> bool" where
  "is_start e = (case e of SourceStart a d \<Rightarrow> True | _ \<Rightarrow> False)"

text \<open>The events the upload itself puts on the channel and its pacing timer.\<close>

definition is_upload_event :: "event \<Rightarrow> bool" where
  "is_upload_event e =
     (case e of ChunkSend n c \<Rightarrow> True | TextSend n t \<Rightarrow> True | Delay ms \<Rightarrow> True | _ \<Rightarrow> False)"

definition is_mic_event :: "event \<Rightarrow> bool" where
  "is_mic_event e = (case e of MicSend n f r \<Rightarrow> True | _ \<Rightarrow> False)"

text \<open>What one invocation of the capture callback appends to the log.\<close>

definition mic_log :: "LiveManager \<Rightarrow> MicFrame \<Rightarrow> event list" where
  "mic_log s e =
     (case sessionPromise s of
        None \<Rightarrow> []
      | Some p \<Rightarrow>
         (case inputContext s of
            None \<Rightarrow> []
          | Some c \<Rightarrow>
             if isProcessingFile s \<or> rejection p \<noteq> None \<or> send_throws e then []
             else [MicSend (sid p) (channelData e) (ctx_rate c)]))"

definition frame_log :: "LiveManager \<Rightarrow> MicFrame \<Rightarrow> event list" where
  "frame_log s e = (if scriptProcessor s = None then [] else mic_log s e)"

text \<open>The calls and the teardown effects recorded in a log.\<close>

definition calls :: "event list \<Rightarrow> callee list" where
  "calls es = concat (map (\<lambda>e. case e of Called m \<Rightarrow> [m] | _ \<Rightarrow> []) es)"

definition is_teardown :: "event \<Rightarrow> bool" where
  "is_teardown e =
     (case e of ContextClosed n \<Rightarrow> True | NodeDisconnected n \<Rightarrow> True | SessionClosed n \<Rightarrow> True
      | _ \<Rightarrow> False)"

text \<open>What \<^verbatim>\<open>disconnect()\<close> appends to the log, read off the fields it finds.\<close>

definition disconnect_log :: "LiveManager \<Rightarrow> event list" where
  "disconnect_log s =
     [Called M_disconnect]
     @ (case sessionPromise s of None \<Rightarrow> []
        | Some p \<Rightarrow> if rejection p = None then [SessionClosed (sid p)] else [])
     @ (case scriptProcessor s of None \<Rightarrow> [] | Some n \<Rightarrow> [NodeDisconnected n])
     @ (case inputSource s of None \<Rightarrow> [] | Some n \<Rightarrow> [NodeDisconnected n])
     @ (case inputContext s of None \<Rightarrow> []
        | Some c \<Rightarrow> if ctx_status c \<noteq> Closed then [ContextClosed (ctx_id c)] else [])
     @ (case outputContext s of None \<Rightarrow> []
        | Some c \<Rightarrow> if ctx_status c \<noteq> Closed then [ContextClosed (ctx_id c)] else [])
     @ [Status DISCONNECTED]"

text \<open>
  A step is quiet when it only appends events that are neither status notifications, nor
  calls, nor teardown effects.
\<close>

definition quiet :: "LiveManager \<Rightarrow> LiveManager \<Rightarrow> bool" where
  "quiet s s' = (extends s s' \<and> statuses (emitted s s') = [] \<and> calls (emitted s s') = []
     \<and> filter is_teardown (emitted s s') = [])"

text \<open>
  Whether the \<^verbatim>\<open>try\<close> block of \<^verbatim>\<open>connect\<close> throws, and the state in which it ends
  (where it threw, or after the session was requested).
\<close>

definition connect_throws :: "ConnectEnv \<Rightarrow> LiveManager \<Rightarrow> bool" where
  "connect_throws env s =
     (fails env AtInputContext \<or> fails env AtOutputContext
      \<or> (is_suspended (outputContext (create_output env (create_input env (connect_begin s))))
          \<and> fails env AtResume)
      \<or> fails env AtLiveConnect)"

definition connect_reached :: "ConnectEnv \<Rightarrow> LiveManager \<Rightarrow> LiveManager" where
  "connect_reached env s =
     (let s1 = connect_begin s;
          s2 = create_input env s1;
          s3 = create_output env s2;
          s4 = mic_setup env (create_analysers (resume_output s3))
      in if fails env AtInputContext then s1
         else if fails env AtOutputContext then s2
         else if is_suspended (outputContext s3) \<and> fails env AtResume then s3
         else if fails env AtLiveConnect then s4
         else open_session env s4)"

section \<open>Concrete scenarios\<close>

text \<open>A manager in the middle of an upload, with the microphone pipeline installed.\<close>

definition uploading_state :: LiveManager where
  "uploading_state =
     initial\<lparr> inputContext := Some \<lparr> ctx_id = 0, ctx_status = Running, ctx_rate = 48000 \<rparr>,
       sessionPromise := Some \<lparr> sid = 2, rejection = None \<rparr>,
       scriptProcessor := Some 3, isProcessingFile := True \<rparr>"

text \<open>
  A decoder that knows two payloads: \<open>A\<close> is one second of audio, \<open>B\<close> half a second;
  anything else fails to decode.
\<close>

definition demo_decode :: "string \<Rightarrow> AudioBuffer option" where
  "demo_decode d =
     (if d = ''A'' then Some \<lparr> buf_length = 24000, buf_rate = 24000 \<rparr>
      else if d = ''B'' then Some \<lparr> buf_length = 12000, buf_rate = 24000 \<rparr>
      else None)"

text \<open>A manager with an output context, as after a successful connect.\<close>

definition playing_state :: LiveManager where
  "playing_state =
     initial\<lparr> outputContext := Some \<lparr> ctx_id = 1, ctx_status = Running, ctx_rate = 48000 \<rparr> \<rparr>"

definition audio_part :: "string \<Rightarrow> Part" where
  "audio_part d = \<lparr> part_text = None, part_data = Some d \<rparr>"

definition demo_message :: LiveServerMessage where
  "demo_message = \<lparr> parts = [audio_part ''A'', audio_part ''B''], interrupted = False, turnComplete = False \<rparr>"

definition barge_in :: LiveServerMessage where
  "barge_in = \<lparr> parts = [audio_part ''A''], interrupted = True, turnComplete = False \<rparr>"

text \<open>
  An environment in which \<^verbatim>\<open>connect()\<close> succeeds with the microphone granted, and the
  manager it leaves behind when called on a fresh instance.
\<close>

definition good_connect :: ConnectEnv where
  "good_connect = \<lparr> throws_at = None, input_suspended = False, output_suspended = False,
     hw_rate = 48000, mic_granted = True, handshake = None \<rparr>"

definition connected_state :: LiveManager where
  "connected_state = snd (connect good_connect initial)"

text \<open>A streaming environment in which nothing throws and no microphone frame arrives.\<close>

definition calm_stream :: StreamEnv where
  "calm_stream = \<lparr> chunk_throws = (\<lambda>i. None), text_throws = None, viz_throws = False,
     mic_frames = (\<lambda>i. []) \<rparr>"

text \<open>
  Streaming environments and upload scenarios. In \<open>flaky_stream\<close> every chunk send throws
  because the socket has closed. \<open>failing_connect\<close> is a \<^verbatim>\<open>connect()\<close> whose first
  \<^verbatim>\<open>new AudioContext()\<close> throws. \<open>chatty_stream\<close> is calm, but one microphone frame arrives
  during the pacing delay after the first chunk.
\<close>

definition flaky_stream :: StreamEnv where
  "flaky_stream = \<lparr> chunk_throws = (\<lambda>i. Some ''WebSocket is closed''), text_throws = None,
     viz_throws = False, mic_frames = (\<lambda>i. []) \<rparr>"

definition failing_connect :: ConnectEnv where
  "failing_connect = \<lparr> throws_at = Some (AtInputContext, ''cannot create AudioContext''),
     input_suspended = False, output_suspended = False, hw_rate = 48000, mic_granted = True,
     handshake = None \<rparr>"

definition chatty_stream :: StreamEnv where
  "chatty_stream = \<lparr> chunk_throws = (\<lambda>i. None), text_throws = None, viz_throws = False,
     mic_frames = (\<lambda>i. if i = 0 then [\<lparr> channelData = [0.125], send_throws = False \<rparr>] else []) \<rparr>"

definition upload_env :: "StreamEnv \<Rightarrow> ConnectEnv \<Rightarrow> StreamEnv \<Rightarrow> UploadEnv" where
  "upload_env first recon second =
     \<lparr> out_resume_throws = None, in_resume_throws = None, decode_ctx_throws = None,
       decoded = Inr [0.5, -0.25], first_attempt = first, reconnect = recon,
       second_attempt = second \<rparr>"

section \<open>Basic facts about the log and the fields\<close>

lemma events_emit [simp]: "events (emit e s) = events s @ [e]"
  by (simp add: emit_def)

lemma fields_emit [simp]:
  "inputContext (emit e s) = inputContext s"
  "outputContext (emit e s) = outputContext s"
  "sessionPromise (emit e s) = sessionPromise s"
  "nextStartTime (emit e s) = nextStartTime s"
  "scriptProcessor (emit e s) = scriptProcessor s"
  "inputSource (emit e s) = inputSource s"
  "inputAnalyser (emit e s) = inputAnalyser s"
  "outputAnalyser (emit e s) = outputAnalyser s"
  "isProcessingFile (emit e s) = isProcessingFile s"
  "hasActiveMic (emit e s) = hasActiveMic s"
  "next_id (emit e s) = next_id s"
  by (simp_all add: emit_def)

lemma emitted_self [simp]: "emitted s s = []"
  by (simp add: emitted_def)

lemma emitted_append: "events s' = events s @ tr \<Longrightarrow> emitted s s' = tr"
  by (simp add: emitted_def)

section \<open>C1: a microphone frame delivered during an upload is dropped\<close>

text \<open>
  Claim C1. Whenever the capture callback runs while \<^verbatim>\<open>isProcessingFile\<close> is true, it
  returns at its guard: the manager is unchanged and no event, in particular no send on the
  channel, is logged for the frame.
\<close>

theorem C1_mic_frame_dropped_during_upload:
  "isProcessingFile s \<Longrightarrow>
     onaudioprocess s e = s \<and> deliver_frame s e = s \<and> emitted s (deliver_frame s e) = []"
  by (simp add: onaudioprocess_def deliver_frame_def split: option.splits)

text \<open>
  The hypothesis holds in \<open>uploading_state\<close>; the same frame in the same state with the
  flag cleared is forwarded, so the drop is due to the flag.
\<close>

theorem C1_witness:
  "isProcessingFile uploading_state \<and>
   events (deliver_frame uploading_state \<lparr> channelData = [0.5, -0.25], send_throws = False \<rparr>) = [] \<and>
   events (deliver_frame (uploading_state\<lparr> isProcessingFile := False \<rparr>)
             \<lparr> channelData = [0.5, -0.25], send_throws = False \<rparr>) = [MicSend 2 [0.5, -0.25] 48000]"
  using C1_mic_frame_dropped_during_upload [of uploading_state "\<lparr> channelData = [0.5, -0.25], send_throws = False \<rparr>"]
  by (simp add: uploading_state_def initial_def deliver_frame_def onaudioprocess_def)

lemma close_session_fields [simp]:
  "inputContext (close_session s) = inputContext s"
  "outputContext (close_session s) = outputContext s"
  "sessionPromise (close_session s) = sessionPromise s"
  "nextStartTime (close_session s) = nextStartTime s"
  "scriptProcessor (close_session s) = scriptProcessor s"
  "inputSource (close_session s) = inputSource s"
  "inputAnalyser (close_session s) = inputAnalyser s"
  "outputAnalyser (close_session s) = outputAnalyser s"
  "isProcessingFile (close_session s) = isProcessingFile s"
  "hasActiveMic (close_session s) = hasActiveMic s"
  "next_id (close_session s) = next_id s"
  by (simp_all add: close_session_def split: option.splits)

lemma disconnect_node_fields [simp]:
  "inputContext (disconnect_node n s) = inputContext s"
  "outputContext (disconnect_node n s) = outputContext s"
  "sessionPromise (disconnect_node n s) = sessionPromise s"
  "nextStartTime (disconnect_node n s) = nextStartTime s"
  "scriptProcessor (disconnect_node n s) = scriptProcessor s"
  "inputSource (disconnect_node n s) = inputSource s"
  "inputAnalyser (disconnect_node n s) = inputAnalyser s"
  "outputAnalyser (disconnect_node n s) = outputAnalyser s"
  "isProcessingFile (disconnect_node n s) = isProcessingFile s"
  "hasActiveMic (disconnect_node n s) = hasActiveMic s"
  "next_id (disconnect_node n s) = next_id s"
  by (simp_all add: disconnect_node_def split: option.splits)

lemma close_context_fields [simp]:
  "inputContext (close_context c s) = inputContext s"
  "outputContext (close_context c s) = outputContext s"
  "sessionPromise (close_context c s) = sessionPromise s"
  "nextStartTime (close_context c s) = nextStartTime s"
  "scriptProcessor (close_context c s) = scriptProcessor s"
  "inputSource (close_context c s) = inputSource s"
  "inputAnalyser (close_context c s) = inputAnalyser s"
  "outputAnalyser (close_context c s) = outputAnalyser s"
  "isProcessingFile (close_context c s) = isProcessingFile s"
  "hasActiveMic (close_context c s) = hasActiveMic s"
  "next_id (close_context c s) = next_id s"
  by (simp_all add: close_context_def split: option.splits)

lemma disconnect_fields [simp]:
  "sessionPromise (disconnect s) = None"
  "inputContext (disconnect s) = None"
  "outputContext (disconnect s) = None"
  "scriptProcessor (disconnect s) = None"
  "inputSource (disconnect s) = None"
  "nextStartTime (disconnect s) = 0"
  "isProcessingFile (disconnect s) = False"
  "hasActiveMic (disconnect s) = False"
  "inputAnalyser (disconnect s) = inputAnalyser s"
  "outputAnalyser (disconnect s) = outputAnalyser s"
  "next_id (disconnect s) = next_id s"
  by (simp_all add: disconnect_def Let_def)

section \<open>C10: what disconnect resets and what it leaves\<close>

text \<open>
  Claim C10. After \<^verbatim>\<open>disconnect()\<close> the session promise, both audio contexts, the script
  processor and the input source are null and the playback cursor is 0, while
  \<^verbatim>\<open>getInputAnalyser()\<close> and \<^verbatim>\<open>getOutputAnalyser()\<close> return what the analyser fields held
  before the call: the analysers of the torn-down session are not cleared.
\<close>

theorem C10_disconnect_keeps_analysers:
  "sessionPromise (disconnect s) = None \<and> inputContext (disconnect s) = None \<and>
   outputContext (disconnect s) = None \<and> scriptProcessor (disconnect s) = None \<and>
   inputSource (disconnect s) = None \<and> nextStartTime (disconnect s) = 0 \<and>
   getInputAnalyser (disconnect s) = inputAnalyser s \<and>
   getOutputAnalyser (disconnect s) = outputAnalyser s"
  by (simp add: getInputAnalyser_def getOutputAnalyser_def)

text \<open>
  A manager that holds a session, an input context, the analysers 4 and 5 and a cursor at 7:
  after \<^verbatim>\<open>disconnect()\<close> the getters still return 4 and 5.
\<close>

theorem C10_witness:
  "inputAnalyser (uploading_state\<lparr> inputAnalyser := Some 4, outputAnalyser := Some 5, nextStartTime := 7 \<rparr>)
     = Some 4 \<and>
   sessionPromise (uploading_state\<lparr> inputAnalyser := Some 4, outputAnalyser := Some 5, nextStartTime := 7 \<rparr>)
     = Some \<lparr> sid = 2, rejection = None \<rparr> \<and>
   sessionPromise (disconnect (uploading_state\<lparr> inputAnalyser := Some 4, outputAnalyser := Some 5,
      nextStartTime := 7 \<rparr>)) = None \<and>
   inputContext (disconnect (uploading_state\<lparr> inputAnalyser := Some 4, outputAnalyser := Some 5,
      nextStartTime := 7 \<rparr>)) = None \<and>
   nextStartTime (disconnect (uploading_state\<lparr> inputAnalyser := Some 4, outputAnalyser := Some 5,
      nextStartTime := 7 \<rparr>)) = 0 \<and>
   getInputAnalyser (disconnect (uploading_state\<lparr> inputAnalyser := Some 4, outputAnalyser := Some 5,
      nextStartTime := 7 \<rparr>)) = Some 4 \<and>
   getOutputAnalyser (disconnect (uploading_state\<lparr> inputAnalyser := Some 4, outputAnalyser := Some 5,
      nextStartTime := 7 \<rparr>)) = Some 5"
  using C10_disconnect_keeps_analysers
    [of "uploading_state\<lparr> inputAnalyser := Some 4, outputAnalyser := Some 5, nextStartTime := 7 \<rparr>"]
  by (simp add: uploading_state_def initial_def)

lemma duration_nonneg: "0 \<le> duration b"
  by (simp add: duration_def)

lemma gapless_weaken: "gapless_from (Some c) es \<Longrightarrow> gapless_from None es"
  by (induction es) (auto elim: gapless_from.elims)

lemma gapless_mono: "gapless_from (Some c') es \<Longrightarrow> c \<le> c' \<Longrightarrow> gapless_from (Some c) es"
proof (induction es arbitrary: c c')
  case Nil
  then show ?case by simp
next
  case (Cons e es)
  then show ?case by (cases e) auto
qed

lemma gapless_text: "gapless_from b (TextReceived t # es) = gapless_from b es"
  by simp

lemma extends_refl [simp]: "extends s s"
  by (simp add: extends_def)

lemma extendsI: "events s' = events s @ tr \<Longrightarrow> extends s s'"
  by (simp add: extends_def emitted_def)

lemma extends_trans: "extends s s' \<Longrightarrow> extends s' s'' \<Longrightarrow> extends s s''"
  unfolding extends_def emitted_def
  by (metis append.assoc append_eq_conv_conj)

lemma emitted_trans: "extends s s' \<Longrightarrow> extends s' s'' \<Longrightarrow> emitted s s'' = emitted s s' @ emitted s' s''"
  unfolding extends_def emitted_def
  by (metis append.assoc append_eq_conv_conj)

lemma handlePart_events:
  "events (handlePart decode now s p) = events s @
     (if truthy (part_text p) then [TextReceived (the (part_text p))] else []) @
     (if truthy (part_data p) then
        (case decode (the (part_data p)) of None \<Rightarrow> []
         | Some b \<Rightarrow> [SourceStart (max (nextStartTime s) now) (duration b)])
      else [])"
  by (simp add: handlePart_def Let_def split: option.splits)

lemma handlePart_cursor:
  "nextStartTime (handlePart decode now s p) =
     (if truthy (part_data p) then
        (case decode (the (part_data p)) of None \<Rightarrow> max (nextStartTime s) now
         | Some b \<Rightarrow> max (nextStartTime s) now + duration b)
      else nextStartTime s)"
  by (simp add: handlePart_def Let_def split: option.splits)

lemma handlePart_outputContext [simp]:
  "outputContext (handlePart decode now s p) = outputContext s"
  by (simp add: handlePart_def Let_def split: option.splits)

lemma handlePart_extends: "extends s (handlePart decode now s p)"
  by (rule extendsI, rule handlePart_events)

lemma handlePart_emitted:
  "emitted s (handlePart decode now s p) =
     (if truthy (part_text p) then [TextReceived (the (part_text p))] else []) @
     (if truthy (part_data p) then
        (case decode (the (part_data p)) of None \<Rightarrow> []
         | Some b \<Rightarrow> [SourceStart (max (nextStartTime s) now) (duration b)])
      else [])"
  by (rule emitted_append, rule handlePart_events)

lemma handlePart_gapless:
  assumes "gapless_from (Some (nextStartTime (handlePart decode now s p))) rest"
  shows "gapless_from (Some (nextStartTime s)) (emitted s (handlePart decode now s p) @ rest)"
proof (cases "truthy (part_data p)")
  case False
  with assms show ?thesis
    by (simp add: handlePart_emitted handlePart_cursor)
next
  case True
  show ?thesis
  proof (cases "decode (the (part_data p))")
    case None
    with True assms have "gapless_from (Some (max (nextStartTime s) now)) rest"
      by (simp add: handlePart_cursor)
    then have "gapless_from (Some (nextStartTime s)) rest"
      by (rule gapless_mono) simp
    with True None show ?thesis
      by (simp add: handlePart_emitted)
  next
    case (Some b)
    with True assms show ?thesis
      by (simp add: handlePart_emitted handlePart_cursor duration_nonneg)
  qed
qed

lemma handleParts_extends: "extends s (handleParts decode clock i s ps)"
proof (induction ps arbitrary: s i)
  case Nil
  then show ?case by simp
next
  case (Cons p ps)
  show ?case
    using extends_trans [OF handlePart_extends Cons.IH] by simp
qed

lemma handleParts_outputContext [simp]:
  "outputContext (handleParts decode clock i s ps) = outputContext s"
  by (induction ps arbitrary: s i) simp_all

lemma handleParts_gapless:
  "gapless_from (Some (nextStartTime (handleParts decode clock i s ps))) rest \<Longrightarrow>
   gapless_from (Some (nextStartTime s)) (emitted s (handleParts decode clock i s ps) @ rest)"
proof (induction ps arbitrary: s i)
  case Nil
  then show ?case by simp
next
  case (Cons p ps)
  let ?s1 = "handlePart decode (clock i) s p"
  let ?s2 = "handleParts decode clock (Suc i) ?s1 ps"
  from Cons.prems have "gapless_from (Some (nextStartTime ?s2)) rest" by simp
  then have "gapless_from (Some (nextStartTime ?s1)) (emitted ?s1 ?s2 @ rest)"
    by (rule Cons.IH)
  then have "gapless_from (Some (nextStartTime s)) (emitted s ?s1 @ emitted ?s1 ?s2 @ rest)"
    by (rule handlePart_gapless)
  moreover have "emitted s ?s2 = emitted s ?s1 @ emitted ?s1 ?s2"
    by (rule emitted_trans [OF handlePart_extends handleParts_extends])
  ultimately show ?case by simp
qed

lemma handleMessage_extends: "extends s (handleMessage decode clock s m)"
proof -
  let ?s1 = "handleParts decode clock 0 s (parts m)"
  have "extends ?s1 ((emit InterruptedSignal ?s1)\<lparr> nextStartTime := 0 \<rparr>)"
    by (rule extendsI [where tr = "[InterruptedSignal]"]) simp
  then have "extends s ((emit InterruptedSignal ?s1)\<lparr> nextStartTime := 0 \<rparr>)"
    by (rule extends_trans [OF handleParts_extends])
  then show ?thesis
    by (simp add: handleMessage_def Let_def handleParts_extends)
qed

lemma handleMessage_outputContext [simp]:
  "outputContext (handleMessage decode clock s m) = outputContext s"
  by (simp add: handleMessage_def Let_def)

lemma handleMessage_emitted:
  "emitted s (handleMessage decode clock s m) =
     (if outputContext s = None then []
      else emitted s (handleParts decode clock 0 s (parts m)) @
           (if interrupted m then [InterruptedSignal] else []))"
proof -
  let ?s1 = "handleParts decode clock 0 s (parts m)"
  let ?s2 = "(emit InterruptedSignal ?s1)\<lparr> nextStartTime := 0 \<rparr>"
  have e: "extends ?s1 ?s2" and m: "emitted ?s1 ?s2 = [InterruptedSignal]"
    by (rule extendsI [where tr = "[InterruptedSignal]"], simp, rule emitted_append, simp)
  have "emitted s ?s2 = emitted s ?s1 @ [InterruptedSignal]"
    using emitted_trans [OF handleParts_extends e] m by simp
  then show ?thesis
    by (simp add: handleMessage_def Let_def)
qed

lemma handleMessage_cursor:
  "nextStartTime (handleMessage decode clock s m) =
     (if outputContext s = None then nextStartTime s
      else if interrupted m then 0
      else nextStartTime (handleParts decode clock 0 s (parts m)))"
  by (simp add: handleMessage_def Let_def)

lemma handleMessage_gapless:
  assumes "gapless_from (Some (nextStartTime (handleMessage decode clock s m))) rest"
  shows "gapless_from (Some (nextStartTime s)) (emitted s (handleMessage decode clock s m) @ rest)"
proof (cases "outputContext s = None")
  case True
  with assms show ?thesis by (simp add: handleMessage_emitted handleMessage_cursor)
next
  case oc: False
  let ?s1 = "handleParts decode clock 0 s (parts m)"
  show ?thesis
  proof (cases "interrupted m")
    case True
    from assms have "gapless_from None rest" by (rule gapless_weaken)
    then have "gapless_from (Some (nextStartTime ?s1)) (InterruptedSignal # rest)" by simp
    then have "gapless_from (Some (nextStartTime s)) (emitted s ?s1 @ InterruptedSignal # rest)"
      by (rule handleParts_gapless)
    moreover have "emitted s (handleMessage decode clock s m) = emitted s ?s1 @ [InterruptedSignal]"
      using oc True by (simp only: handleMessage_emitted if_False if_True)
    ultimately show ?thesis by simp
  next
    case False
    with oc assms have "gapless_from (Some (nextStartTime ?s1)) rest"
      by (simp only: handleMessage_cursor if_False)
    then have "gapless_from (Some (nextStartTime s)) (emitted s ?s1 @ rest)"
      by (rule handleParts_gapless)
    moreover have "emitted s (handleMessage decode clock s m) = emitted s ?s1"
      using oc False by (simp only: handleMessage_emitted if_False append_Nil2)
    ultimately show ?thesis by simp
  qed
qed

lemma handleMessages_extends: "extends s (handleMessages decode s ms)"
proof (induction ms arbitrary: s)
  case Nil
  then show ?case by simp
next
  case (Cons cm ms)
  show ?case
    using extends_trans [OF handleMessage_extends Cons.IH] by simp
qed

lemma handleMessages_outputContext [simp]:
  "outputContext (handleMessages decode s ms) = outputContext s"
  by (induction ms arbitrary: s) simp_all

lemma handleMessages_gapless:
  "gapless_from (Some (nextStartTime s)) (emitted s (handleMessages decode s ms))"
proof (induction ms arbitrary: s)
  case Nil
  then show ?case by simp
next
  case (Cons cm ms)
  let ?s1 = "handleMessage decode (fst cm) s (snd cm)"
  let ?s2 = "handleMessages decode ?s1 ms"
  have "gapless_from (Some (nextStartTime ?s1)) (emitted ?s1 ?s2 @ [])"
    using Cons.IH by simp
  then have "gapless_from (Some (nextStartTime s)) (emitted s ?s1 @ emitted ?s1 ?s2 @ [])"
    by (rule handleMessage_gapless)
  moreover have "emitted s ?s2 = emitted s ?s1 @ emitted ?s1 ?s2"
    by (rule emitted_trans [OF handleMessage_extends handleMessages_extends])
  ultimately show ?case by simp
qed

lemma gapless_suffix: "gapless_from b (pre @ es) \<Longrightarrow> \<exists>b'. gapless_from b' es"
proof (induction pre arbitrary: b)
  case Nil
  then show ?case by auto
next
  case (Cons e pre)
  then show ?case by (cases e) auto
qed

lemma gapless_reach:
  "gapless_from (Some c) (mid @ SourceStart a d # post) \<Longrightarrow> InterruptedSignal \<notin> set mid \<Longrightarrow> c \<le> a"
proof (induction mid arbitrary: c)
  case Nil
  then show ?case by simp
next
  case (Cons e mid)
  show ?case
  proof (cases e)
    case (SourceStart a' d')
    with Cons.prems have "c \<le> a'" "0 \<le> d'"
      and "gapless_from (Some (a' + d')) (mid @ SourceStart a d # post)" by simp_all
    with Cons.IH Cons.prems(2) have "a' + d' \<le> a" by simp
    with \<open>c \<le> a'\<close> \<open>0 \<le> d'\<close> show ?thesis by simp
  qed (use Cons in auto)
qed

lemma gapless_pair:
  assumes "gapless_from b (pre @ SourceStart a1 d1 # mid @ SourceStart a2 d2 # post)"
    and "InterruptedSignal \<notin> set mid"
  shows "a1 + d1 \<le> a2"
proof -
  from gapless_suffix [OF assms(1)] obtain b' where
    "gapless_from b' (SourceStart a1 d1 # mid @ SourceStart a2 d2 # post)" ..
  then have "gapless_from (Some (a1 + d1)) (mid @ SourceStart a2 d2 # post)" by simp
  then show ?thesis using assms(2) by (rule gapless_reach)
qed

section \<open>C3: gapless scheduling of inbound audio\<close>



section \<open>C8: the first chunk after an interruption starts no later than the device time\<close>

text \<open>While nothing is scheduled, the cursor stays at or below any bound on the clock readings.\<close>

lemma handlePart_quiet_cursor:
  assumes "nextStartTime s \<le> t" and "now \<le> t"
    and "\<forall>e \<in> set (emitted s (handlePart decode now s p)). \<not> is_start e"
  shows "nextStartTime (handlePart decode now s p) \<le> t"
proof (cases "truthy (part_data p)")
  case False
  with assms(1) show ?thesis by (simp add: handlePart_cursor)
next
  case True
  show ?thesis
  proof (cases "decode (the (part_data p))")
    case None
    with True assms(1,2) show ?thesis by (simp add: handlePart_cursor)
  next
    case (Some b)
    with True have "SourceStart (max (nextStartTime s) now) (duration b)
        \<in> set (emitted s (handlePart decode now s p))"
      by (simp add: handlePart_emitted)
    with assms(3) show ?thesis by (auto simp: is_start_def)
  qed
qed

lemma handleParts_quiet_cursor:
  "nextStartTime s \<le> t \<Longrightarrow> \<forall>j < length ps. clock (i + j) \<le> t \<Longrightarrow>
   \<forall>e \<in> set (emitted s (handleParts decode clock i s ps)). \<not> is_start e \<Longrightarrow>
   nextStartTime (handleParts decode clock i s ps) \<le> t"
proof (induction ps arbitrary: s i)
  case Nil
  then show ?case by simp
next
  case (Cons p ps)
  let ?s1 = "handlePart decode (clock i) s p"
  let ?s2 = "handleParts decode clock (Suc i) ?s1 ps"
  have split: "emitted s ?s2 = emitted s ?s1 @ emitted ?s1 ?s2"
    by (rule emitted_trans [OF handlePart_extends handleParts_extends])
  from Cons.prems(2) have "clock i \<le> t"
    by (metis add.right_neutral length_greater_0_conv list.distinct(1))
  moreover from Cons.prems(3) split have "\<forall>e \<in> set (emitted s ?s1). \<not> is_start e" by simp
  ultimately have c1: "nextStartTime ?s1 \<le> t"
    using Cons.prems(1) by (intro handlePart_quiet_cursor)
  have "\<forall>j < length ps. clock (Suc i + j) \<le> t"
  proof (intro allI impI)
    fix j assume "j < length ps"
    then have "Suc j < length (p # ps)" by simp
    with Cons.prems(2) have "clock (i + Suc j) \<le> t" by blast
    then show "clock (Suc i + j) \<le> t" by simp
  qed
  moreover from Cons.prems(3) split have "\<forall>e \<in> set (emitted ?s1 ?s2). \<not> is_start e" by simp
  ultimately have "nextStartTime ?s2 \<le> t"
    using c1 by (intro Cons.IH)
  then show ?case by simp
qed

lemma handleMessage_quiet_cursor:
  assumes "nextStartTime s \<le> t" and "0 \<le> t"
    and "\<forall>i < length (parts m). clock i \<le> t"
    and "\<forall>e \<in> set (emitted s (handleMessage decode clock s m)). \<not> is_start e"
  shows "nextStartTime (handleMessage decode clock s m) \<le> t"
proof (cases "outputContext s = None \<or> interrupted m")
  case True
  with assms(1,2) show ?thesis by (auto simp: handleMessage_cursor)
next
  case False
  then have oc: "outputContext s \<noteq> None" and ni: "\<not> interrupted m" by simp_all
  have "emitted s (handleMessage decode clock s m) = emitted s (handleParts decode clock 0 s (parts m))"
    using oc ni by (simp only: handleMessage_emitted if_False append_Nil2)
  with assms(4) have "\<forall>e \<in> set (emitted s (handleParts decode clock 0 s (parts m))). \<not> is_start e"
    by simp
  with assms(1,3) have "nextStartTime (handleParts decode clock 0 s (parts m)) \<le> t"
    by (intro handleParts_quiet_cursor) simp_all
  moreover have "nextStartTime (handleMessage decode clock s m)
      = nextStartTime (handleParts decode clock 0 s (parts m))"
    using oc ni by (simp only: handleMessage_cursor if_False)
  ultimately show ?thesis by simp
qed

lemma handleMessages_quiet_cursor:
  "nextStartTime s \<le> t \<Longrightarrow> 0 \<le> t \<Longrightarrow>
   \<forall>cm \<in> set ms. \<forall>i < length (parts (snd cm)). fst cm i \<le> t \<Longrightarrow>
   \<forall>e \<in> set (emitted s (handleMessages decode s ms)). \<not> is_start e \<Longrightarrow>
   nextStartTime (handleMessages decode s ms) \<le> t"
proof (induction ms arbitrary: s)
  case Nil
  then show ?case by simp
next
  case (Cons cm ms)
  let ?s1 = "handleMessage decode (fst cm) s (snd cm)"
  let ?s2 = "handleMessages decode ?s1 ms"
  have split: "emitted s ?s2 = emitted s ?s1 @ emitted ?s1 ?s2"
    by (rule emitted_trans [OF handleMessage_extends handleMessages_extends])
  from Cons.prems(4) split have q1: "\<forall>e \<in> set (emitted s ?s1). \<not> is_start e"
    and q2: "\<forall>e \<in> set (emitted ?s1 ?s2). \<not> is_start e" by simp_all
  from Cons.prems(3) have "\<forall>i < length (parts (snd cm)). fst cm i \<le> t" by simp
  with Cons.prems(1,2) q1 have "nextStartTime ?s1 \<le> t"
    by (intro handleMessage_quiet_cursor)
  moreover from Cons.prems(3) have "\<forall>cm \<in> set ms. \<forall>i < length (parts (snd cm)). fst cm i \<le> t"
    by simp
  ultimately have "nextStartTime ?s2 \<le> t"
    using Cons.prems(2) q2 by (intro Cons.IH)
  then show ?case by simp
qed



section \<open>C6: peak normalisation\<close>

lemma if_greater_max: "(if a > (m :: real) then a else m) = max m a"
  by (simp add: max_def)

lemma maxVal_fold:
  "n \<le> length data \<Longrightarrow>
   fold (\<lambda>i m. if \<bar>data ! i\<bar> > m then \<bar>data ! i\<bar> else m) [0..<n] (m0 :: real)
     = Max (insert m0 (abs ` set (take n data)))"
proof (induction n)
  case 0
  then show ?case by simp
next
  case (Suc n)
  then have n: "n < length data" by simp
  let ?M = "Max (insert m0 (abs ` set (take n data)))"
  have "fold (\<lambda>i m. if \<bar>data ! i\<bar> > m then \<bar>data ! i\<bar> else m) [0..<Suc n] m0
      = (if \<bar>data ! n\<bar> > ?M then \<bar>data ! n\<bar> else ?M)"
    using Suc by simp
  also have "\<dots> = max ?M \<bar>data ! n\<bar>" by (rule if_greater_max)
  also have "\<dots> = Max (insert \<bar>data ! n\<bar> (insert m0 (abs ` set (take n data))))"
    by (subst Max_insert) (simp_all add: max.commute)
  also have "insert \<bar>data ! n\<bar> (insert m0 (abs ` set (take n data)))
      = insert m0 (abs ` set (take (Suc n) data))"
    using n by (auto simp: take_Suc_conv_app_nth)
  finally show ?case .
qed

lemma maxVal_Max: "maxVal data = Max (insert 0 (abs ` set data))"
  using maxVal_fold [of "length data" data 0] by (simp add: maxVal_def)

lemma scale_all_fold:
  "n \<le> length data \<Longrightarrow>
   fold (\<lambda>i d. d[i := d ! i * c]) [0..<n] data = map (\<lambda>x. x * c) (take n data) @ drop n data"
proof (induction n)
  case 0
  then show ?case by simp
next
  case (Suc n)
  then have n: "n < length data" by simp
  have "fold (\<lambda>i d. d[i := d ! i * c]) [0..<Suc n] data
      = (map (\<lambda>x. x * c) (take n data) @ drop n data)
          [n := (map (\<lambda>x. x * c) (take n data) @ drop n data) ! n * c]"
    using Suc by simp
  also have "(map (\<lambda>x. x * c) (take n data) @ drop n data) ! n = data ! n"
    using n by (simp add: nth_append)
  also have "(map (\<lambda>x. x * c) (take n data) @ drop n data)[n := data ! n * c]
      = map (\<lambda>x. x * c) (take n data) @ (drop n data)[0 := data ! n * c]"
    using n by (simp add: list_update_append)
  also have "(drop n data)[0 := data ! n * c] = (data ! n * c) # drop (Suc n) data"
    using n by (simp add: Cons_nth_drop_Suc [symmetric])
  also have "map (\<lambda>x. x * c) (take n data) @ (data ! n * c) # drop (Suc n) data
      = map (\<lambda>x. x * c) (take (Suc n) data) @ drop (Suc n) data"
    using n by (simp add: take_Suc_conv_app_nth)
  finally show ?case .
qed

lemma scale_all_map: "scale_all c data = map (\<lambda>x. x * c) data"
  using scale_all_fold [of "length data" data c] by (simp add: scale_all_def)

text \<open>
  Claim C6. \<open>maxVal\<close> is the maximum absolute sample of the buffer (0 for the empty
  buffer). When it is positive, normalisation multiplies every sample by \<open>0.95 / maxVal\<close>;
  when it is 0 the buffer is returned unchanged and no division takes place.
\<close>

theorem C6_peak_normalization:
  "maxVal data = Max (insert 0 (abs ` set data)) \<and>
   (0 < maxVal data \<longrightarrow> peak_normalize data = map (\<lambda>x. x * (0.95 / maxVal data)) data) \<and>
   (maxVal data = 0 \<longrightarrow> peak_normalize data = data)"
  by (simp add: peak_normalize_def scale_all_map maxVal_Max [symmetric])

text \<open>A buffer with peak 0.5 is scaled by 1.9; a silent buffer is left as it is.\<close>

theorem C6_witness:
  "maxVal [0.25, -0.5, 0.125] = 0.5 \<and> (0::real) < maxVal [0.25, -0.5, 0.125] \<and>
   peak_normalize [0.25, -0.5, 0.125] = [0.475, -0.95, 0.2375] \<and>
   maxVal [0, 0, 0] = 0 \<and> peak_normalize [0, 0, 0] = [0, 0, 0]"
  using C6_peak_normalization [of "[0.25, -0.5, 0.125]"] C6_peak_normalization [of "[0, 0, 0]"]
  by (simp add: maxVal_Max)

section \<open>C5: what streaming sends\<close>

lemma chunk_count_step:
  assumes "i < n" and "0 < (C::nat)"
  shows "(n - i + (C - 1)) div C = Suc ((n - (i + C) + (C - 1)) div C)"
proof (cases "C \<le> n - i")
  case True
  then have "n - i + (C - 1) = (n - (i + C) + (C - 1)) + C" by simp
  then have "(n - i + (C - 1)) div C = ((n - (i + C) + (C - 1)) + C) div C" by (rule arg_cong)
  also have "\<dots> = Suc ((n - (i + C) + (C - 1)) div C)"
    by (subst div_add_self2) (use assms(2) in simp_all)
  finally show ?thesis .
next
  case False
  then have z: "n - (i + C) = 0" by simp
  have "(n - i + (C - 1)) div C = 1"
    using assms False by (intro div_nat_eqI) simp_all
  with z assms(2) show ?thesis by simp
qed

lemma ceil_nat_aux:
  assumes "0 < (C::nat)"
  shows "(n + (C - 1)) div C = (if n mod C = 0 then n div C else Suc (n div C))"
proof -
  let ?q = "n div C" and ?r = "n mod C"
  have r: "?r < C" using assms by simp
  have "n + (C - 1) = (?r + (C - 1)) + ?q * C" by simp
  then have "(n + (C - 1)) div C = ((?r + (C - 1)) + ?q * C) div C" by (rule arg_cong)
  also have "\<dots> = ?q + (?r + (C - 1)) div C"
    by (subst div_mult_self1) (use assms in simp_all)
  also have "(?r + (C - 1)) div C = (if ?r = 0 then 0 else 1)"
  proof (cases "?r = 0")
    case True
    with assms show ?thesis by simp
  next
    case False
    have "(?r + (C - 1)) div C = 1"
      using False r by (intro div_nat_eqI) simp_all
    with False show ?thesis by simp
  qed
  finally show ?thesis by (simp split: if_splits)
qed

lemma ceil_div_nat:
  assumes "0 < (C::nat)"
  shows "nat \<lceil>real n / real C\<rceil> = (n + (C - 1)) div C"
proof -
  have "\<lceil>real n / real C\<rceil> = \<lceil>of_int (int n) / (of_int (int C) :: real)\<rceil>" by simp
  also have "\<dots> = - ((- int n) div int C)" by (rule ceiling_divide_eq_div)
  also have "\<dots> = (if int n mod int C = 0 then int n div int C else int n div int C + 1)"
    using assms by (simp add: zdiv_zminus1_eq_if)
  also have "\<dots> = int (if n mod C = 0 then n div C else Suc (n div C))"
    by (simp flip: of_nat_mod of_nat_div)
  finally have "\<lceil>real n / real C\<rceil> = int ((n + (C - 1)) div C)"
    by (simp only: ceil_nat_aux [OF assms])
  then show ?thesis by simp
qed

lemma CHUNK_SIZE_pos: "0 < CHUNK_SIZE"
  by (simp add: CHUNK_SIZE_def)

lemma onaudioprocess_log: "onaudioprocess s e = s\<lparr> events := events s @ mic_log s e \<rparr>"
  by (simp add: onaudioprocess_def mic_log_def emit_def split: option.splits)

lemma mic_log_mic: "\<forall>x \<in> set (mic_log s e). is_mic_event x"
  by (auto simp: mic_log_def is_mic_event_def split: option.splits)

lemma deliver_frame_log: "deliver_frame s e = s\<lparr> events := events s @ frame_log s e \<rparr>"
  by (simp add: deliver_frame_def frame_log_def onaudioprocess_log)

lemma frame_log_mic: "\<forall>x \<in> set (frame_log s e). is_mic_event x"
  using mic_log_mic by (simp add: frame_log_def)

lemma frame_log_muted: "isProcessingFile s \<Longrightarrow> frame_log s e = []"
  by (simp add: frame_log_def mic_log_def split: option.splits)

lemma deliver_frames_log:
  "\<exists>tr. foldl deliver_frame s fs = s\<lparr> events := events s @ tr \<rparr> \<and> (\<forall>x \<in> set tr. is_mic_event x)
        \<and> (isProcessingFile s \<longrightarrow> tr = [])"
proof (induction fs arbitrary: s)
  case Nil
  have "foldl deliver_frame s [] = s\<lparr> events := events s @ [] \<rparr> \<and> (\<forall>x \<in> set []. is_mic_event x)
      \<and> (isProcessingFile s \<longrightarrow> [] = ([] :: event list))"
    by simp
  then show ?case by blast
next
  case (Cons f fs)
  let ?s1 = "deliver_frame s f"
  obtain t2 where t2: "foldl deliver_frame ?s1 fs = ?s1\<lparr> events := events ?s1 @ t2 \<rparr>"
    and m2: "\<forall>x \<in> set t2. is_mic_event x"
    and q2: "isProcessingFile ?s1 \<longrightarrow> t2 = []"
    using Cons.IH by blast
  have "foldl deliver_frame s (f # fs) = s\<lparr> events := events s @ (frame_log s f @ t2) \<rparr>"
    using t2 by (simp add: deliver_frame_log)
  moreover have "\<forall>x \<in> set (frame_log s f @ t2). is_mic_event x"
    using frame_log_mic [of s f] m2 by auto
  moreover have "isProcessingFile s \<longrightarrow> frame_log s f @ t2 = []"
    using q2 by (simp add: frame_log_muted deliver_frame_log)
  ultimately show ?case by blast
qed

lemma mic_not_upload: "\<forall>x \<in> set tr. is_mic_event x \<Longrightarrow> filter is_upload_event tr = []"
  by (induction tr) (auto simp: is_mic_event_def is_upload_event_def split: event.splits)

declare stream_loop.simps [simp del]

lemma stream_loop_log:
  "\<forall>j. chunk_throws env j = None \<Longrightarrow>
   \<exists>tr. stream_loop env sn data i s = (Inr (), s\<lparr> events := events s @ tr \<rparr>) \<and>
        filter is_upload_event tr =
          concat (map (\<lambda>k. [ChunkSend sn (take CHUNK_SIZE (drop (i + k * CHUNK_SIZE) data)), Delay 50])
                    [0..<(length data - i + (CHUNK_SIZE - 1)) div CHUNK_SIZE]) \<and>
        (isProcessingFile s \<longrightarrow> filter is_mic_event tr = [])"
proof (induction env sn data i s rule: stream_loop.induct)
  case (1 env sn data i s)
  let ?f = "\<lambda>j. [ChunkSend sn (take CHUNK_SIZE (drop j data)), Delay 50]"
  show ?case
  proof (cases "i < length data")
    case False
    then have "stream_loop env sn data i s = (Inr (), s\<lparr> events := events s @ [] \<rparr>)"
      by (subst stream_loop.simps) simp
    moreover from False have "(length data - i + (CHUNK_SIZE - 1)) div CHUNK_SIZE = 0"
      using CHUNK_SIZE_pos by simp
    ultimately have "stream_loop env sn data i s = (Inr (), s\<lparr> events := events s @ [] \<rparr>) \<and>
        filter is_upload_event [] =
          concat (map (\<lambda>k. ?f (i + k * CHUNK_SIZE)) [0..<(length data - i + (CHUNK_SIZE - 1)) div CHUNK_SIZE]) \<and>
        (isProcessingFile s \<longrightarrow> filter is_mic_event [] = [])"
      by simp
    then show ?thesis by blast
  next
    case True
    let ?s1 = "emit (Delay 50) (emit (ChunkSend sn (take CHUNK_SIZE (drop i data))) s)"
    let ?s2 = "foldl deliver_frame ?s1 (mic_frames env i)"
    let ?m = "(length data - (i + CHUNK_SIZE) + (CHUNK_SIZE - 1)) div CHUNK_SIZE"
    have no: "chunk_throws env i = None" using "1.prems" by simp
    obtain mic where mic: "?s2 = ?s1\<lparr> events := events ?s1 @ mic \<rparr>"
      and mm: "\<forall>x \<in> set mic. is_mic_event x"
      and mq: "isProcessingFile ?s1 \<longrightarrow> mic = []"
      using deliver_frames_log by blast
    obtain tr where tr: "stream_loop env sn data (i + CHUNK_SIZE) ?s2 = (Inr (), ?s2\<lparr> events := events ?s2 @ tr \<rparr>)"
      and ftr: "filter is_upload_event tr = concat (map (\<lambda>k. ?f (i + CHUNK_SIZE + k * CHUNK_SIZE)) [0..<?m])"
      and qtr: "isProcessingFile ?s2 \<longrightarrow> filter is_mic_event tr = []"
      using "1.IH" [OF True no "1.prems"] by blast
    have unfold: "stream_loop env sn data i s = stream_loop env sn data (i + CHUNK_SIZE) ?s2"
      using True no by (subst stream_loop.simps) simp
    have s2: "?s2 = s\<lparr> events := events s @ (?f i @ mic) \<rparr>"
      by (subst mic) (simp add: emit_def)
    have res: "stream_loop env sn data i s = (Inr (), s\<lparr> events := events s @ (?f i @ mic @ tr) \<rparr>)"
      unfolding unfold tr by (subst (1 2) s2) simp
    have cnt: "(length data - i + (CHUNK_SIZE - 1)) div CHUNK_SIZE = Suc ?m"
      using True CHUNK_SIZE_pos by (rule chunk_count_step)
    have "filter is_upload_event (?f i @ mic @ tr) = ?f i @ concat (map (\<lambda>k. ?f (i + CHUNK_SIZE + k * CHUNK_SIZE)) [0..<?m])"
      using ftr mic_not_upload [OF mm] by (simp add: is_upload_event_def)
    also have "\<dots> = concat (map (\<lambda>k. ?f (i + k * CHUNK_SIZE)) [0..<Suc ?m])"
      by (simp add: map_upt_Suc add.assoc del: upt_Suc)
    finally have up: "filter is_upload_event (?f i @ mic @ tr) =
        concat (map (\<lambda>k. ?f (i + k * CHUNK_SIZE)) [0..<(length data - i + (CHUNK_SIZE - 1)) div CHUNK_SIZE])"
      by (simp only: cnt)
    have "isProcessingFile ?s2 = isProcessingFile s" by (subst s2) simp
    with qtr mq have "isProcessingFile s \<longrightarrow> filter is_mic_event (?f i @ mic @ tr) = []"
      by (simp add: is_mic_event_def)
    with res up show ?thesis by blast
  qed
qed

lemma start_viz_log:
  "\<exists>tr. start_viz env data s = s\<lparr> events := events s @ tr \<rparr> \<and> filter is_upload_event tr = []
        \<and> filter is_mic_event tr = []"
proof (cases "inputContext s \<noteq> None \<and> inputAnalyser s \<noteq> None \<and> \<not> viz_throws env")
  case True
  then have "start_viz env data s = s\<lparr> events := events s @ [VizStarted (length data)] \<rparr>
      \<and> filter is_upload_event [VizStarted (length data)] = []
      \<and> filter is_mic_event [VizStarted (length data)] = []"
    by (simp add: start_viz_def emit_def is_upload_event_def is_mic_event_def del: not_None_eq)
  then show ?thesis by blast
next
  case False
  then have "start_viz env data s = s\<lparr> events := events s @ [] \<rparr> \<and> filter is_upload_event [] = []
      \<and> filter is_mic_event [] = []"
    by (auto simp add: start_viz_def simp del: not_None_eq)
  then show ?thesis by blast
qed

lemma streamAudioData_ok:
  assumes "sessionPromise s = Some p" and "rejection p = None"
    and "\<forall>i. chunk_throws env i = None" and "text_throws env = None"
  shows "\<exists>tr. streamAudioData env data s = (Inr (), s\<lparr> events := events s @ tr \<rparr>) \<and>
           filter is_upload_event tr =
             concat (map (\<lambda>k. [ChunkSend (sid p) (take CHUNK_SIZE (drop (k * CHUNK_SIZE) data)), Delay 50])
                       [0..<(length data + (CHUNK_SIZE - 1)) div CHUNK_SIZE])
             @ [TextSend (sid p) completion_prompt] \<and>
           (isProcessingFile s \<longrightarrow> filter is_mic_event tr = [])"
proof -
  let ?s0 = "emit (Called (M_streamAudioData data)) s"
  let ?chunks = "concat (map (\<lambda>k. [ChunkSend (sid p) (take CHUNK_SIZE (drop (k * CHUNK_SIZE) data)), Delay 50])
                       [0..<(length data + (CHUNK_SIZE - 1)) div CHUNK_SIZE])"
  obtain v where v: "start_viz env data ?s0 = ?s0\<lparr> events := events ?s0 @ v \<rparr>"
    and fv: "filter is_upload_event v = []" and mv: "filter is_mic_event v = []"
    using start_viz_log by blast
  let ?s1 = "start_viz env data ?s0"
  obtain tr where tr: "stream_loop env (sid p) data 0 ?s1 = (Inr (), ?s1\<lparr> events := events ?s1 @ tr \<rparr>)"
    and ftr: "filter is_upload_event tr = ?chunks"
    and mtr: "isProcessingFile ?s1 \<longrightarrow> filter is_mic_event tr = []"
    using stream_loop_log [OF assms(3), of "sid p" data 0 ?s1] by auto
  have s1: "?s1 = s\<lparr> events := events s @ (Called (M_streamAudioData data) # v) \<rparr>"
    by (subst v) (simp add: emit_def)
  have "streamAudioData env data s
      = (Inr (), emit (TextSend (sid p) completion_prompt) (?s1\<lparr> events := events ?s1 @ tr \<rparr>))"
    using assms(1,2,4) tr by (simp add: streamAudioData_def Let_def)
  also have "emit (TextSend (sid p) completion_prompt) (?s1\<lparr> events := events ?s1 @ tr \<rparr>)
      = s\<lparr> events := events s @ (Called (M_streamAudioData data) # v @ tr @ [TextSend (sid p) completion_prompt]) \<rparr>"
    by (subst (1 2) s1) (simp add: emit_def)
  finally have "streamAudioData env data s = (Inr (), s\<lparr> events := events s @
      (Called (M_streamAudioData data) # v @ tr @ [TextSend (sid p) completion_prompt]) \<rparr>)" .
  moreover have "filter is_upload_event (Called (M_streamAudioData data) # v @ tr @ [TextSend (sid p) completion_prompt])
      = ?chunks @ [TextSend (sid p) completion_prompt]"
    using fv ftr by (simp add: is_upload_event_def)
  moreover have "isProcessingFile ?s1 = isProcessingFile s" by (subst s1) simp
  with mtr mv have "isProcessingFile s \<longrightarrow>
      filter is_mic_event (Called (M_streamAudioData data) # v @ tr @ [TextSend (sid p) completion_prompt]) = []"
    by (simp add: is_mic_event_def)
  ultimately show ?thesis by blast
qed

text \<open>
  Claim C5. When the session promise resolves and no send throws, \<^verbatim>\<open>streamAudioData\<close>
  returns normally, and what it puts on the channel is, in order: for each
  \<open>k < ceil(n / 8192)\<close> the chunk of the samples from offset \<open>8192 k\<close> followed by a wait of
  50 ms, and then one text message with the fixed completion prompt. This holds for every
  buffer length \<open>n\<close> (for \<open>n = 0\<close> only the text message is sent). While
  \<^verbatim>\<open>isProcessingFile\<close> is set, as it is when \<^verbatim>\<open>sendAudioFile\<close> first calls
  \<^verbatim>\<open>streamAudioData\<close>, no frame of the microphone is sent in between.
\<close>

theorem C5_upload_stream:
  assumes "sessionPromise s = Some p" and "rejection p = None"
    and "\<forall>i. chunk_throws env i = None" and "text_throws env = None"
  shows "fst (streamAudioData env data s) = Inr () \<and>
         filter is_upload_event (emitted s (snd (streamAudioData env data s))) =
           concat (map (\<lambda>k. [ChunkSend (sid p) (take 8192 (drop (k * 8192) data)), Delay 50])
                     [0..<nat \<lceil>real (length data) / 8192\<rceil>])
           @ [TextSend (sid p) ''I have finished playing. Generate a musical continuation now.''] \<and>
         (isProcessingFile s \<longrightarrow>
            filter is_mic_event (emitted s (snd (streamAudioData env data s))) = [])"
proof -
  obtain tr where r: "streamAudioData env data s = (Inr (), s\<lparr> events := events s @ tr \<rparr>)"
    and f: "filter is_upload_event tr =
             concat (map (\<lambda>k. [ChunkSend (sid p) (take CHUNK_SIZE (drop (k * CHUNK_SIZE) data)), Delay 50])
                       [0..<(length data + (CHUNK_SIZE - 1)) div CHUNK_SIZE])
             @ [TextSend (sid p) completion_prompt]"
    and m: "isProcessingFile s \<longrightarrow> filter is_mic_event tr = []"
    using streamAudioData_ok [OF assms] by blast
  have "nat \<lceil>real (length data) / real CHUNK_SIZE\<rceil> = (length data + (CHUNK_SIZE - 1)) div CHUNK_SIZE"
    by (rule ceil_div_nat [OF CHUNK_SIZE_pos])
  then have c: "(length data + (CHUNK_SIZE - 1)) div CHUNK_SIZE = nat \<lceil>real (length data) / 8192\<rceil>"
    by (simp add: CHUNK_SIZE_def)
  have "emitted s (snd (streamAudioData env data s)) = tr"
    by (simp add: r emitted_def)
  with r f c m show ?thesis
    by (simp add: CHUNK_SIZE_def completion_prompt_def)
qed

lemma connected_state_eq:
  "connected_state =
     \<lparr> inputContext = Some \<lparr> ctx_id = 0, ctx_status = Running, ctx_rate = 48000 \<rparr>,
       outputContext = Some \<lparr> ctx_id = 1, ctx_status = Running, ctx_rate = 48000 \<rparr>,
       sessionPromise = Some \<lparr> sid = 6, rejection = None \<rparr>,
       nextStartTime = 0, scriptProcessor = Some 5, inputSource = Some 4,
       inputAnalyser = Some 2, outputAnalyser = Some 3, isProcessingFile = False,
       hasActiveMic = True,
       events = [Called M_connect, Status CONNECTING, ContextCreated 0, ContextCreated 1,
                 NodeCreated 2, NodeCreated 3, NodeCreated 4, NodeCreated 5, SessionRequested 6],
       next_id = 7 \<rparr>"
  by (simp add: connected_state_def connect_def good_connect_def initial_def fails_def
      connect_begin_def create_input_def create_output_def is_suspended_def resume_output_def
      create_analysers_def new_context_def new_node_def mic_setup_def open_session_def
      emit_def Let_def)

text \<open>
  A buffer of 8193 samples goes out as two chunks, of 8192 samples and of one; the
  microphone frame that arrives after the first chunk is not sent.
\<close>

theorem C5_witness:
  "sessionPromise (connected_state\<lparr> isProcessingFile := True \<rparr>) = Some \<lparr> sid = 6, rejection = None \<rparr> \<and>
   isProcessingFile (connected_state\<lparr> isProcessingFile := True \<rparr>) \<and>
   mic_frames chatty_stream 0 = [\<lparr> channelData = [0.125], send_throws = False \<rparr>] \<and>
   fst (streamAudioData chatty_stream (replicate 8193 0) (connected_state\<lparr> isProcessingFile := True \<rparr>))
     = Inr () \<and>
   filter is_upload_event
      (emitted (connected_state\<lparr> isProcessingFile := True \<rparr>)
         (snd (streamAudioData chatty_stream (replicate 8193 0)
                 (connected_state\<lparr> isProcessingFile := True \<rparr>))))
     = [ChunkSend 6 (replicate 8192 0), Delay 50, ChunkSend 6 [0], Delay 50,
        TextSend 6 ''I have finished playing. Generate a musical continuation now.''] \<and>
   filter is_mic_event
      (emitted (connected_state\<lparr> isProcessingFile := True \<rparr>)
         (snd (streamAudioData chatty_stream (replicate 8193 0)
                 (connected_state\<lparr> isProcessingFile := True \<rparr>))))
     = []"
  using C5_upload_stream [where s = "connected_state\<lparr> isProcessingFile := True \<rparr>"
      and p = "\<lparr> sid = 6, rejection = None \<rparr>"
      and env = chatty_stream and data = "replicate 8193 0"]
  by (simp add: connected_state_eq chatty_stream_def upt_rec)

section \<open>Logs of disconnect and connect\<close>

lemma close_session_events:
  "events (close_session s) = events s @
     (case sessionPromise s of None \<Rightarrow> []
      | Some p \<Rightarrow> if rejection p = None then [SessionClosed (sid p)] else [])"
  by (simp add: close_session_def split: option.splits)

lemma disconnect_node_events:
  "events (disconnect_node n s) = events s @ (case n of None \<Rightarrow> [] | Some k \<Rightarrow> [NodeDisconnected k])"
  by (simp add: disconnect_node_def split: option.splits)

lemma close_context_events:
  "events (close_context c s) = events s @
     (case c of None \<Rightarrow> []
      | Some x \<Rightarrow> if ctx_status x \<noteq> Closed then [ContextClosed (ctx_id x)] else [])"
  by (simp add: close_context_def split: option.splits)

lemma disconnect_events: "events (disconnect s) = events s @ disconnect_log s"
  by (simp add: disconnect_def disconnect_log_def Let_def close_session_events
      disconnect_node_events close_context_events)

lemma disconnect_extends: "extends s (disconnect s)"
  by (rule extendsI, rule disconnect_events)

lemma disconnect_emitted: "emitted s (disconnect s) = disconnect_log s"
  by (rule emitted_append, rule disconnect_events)

lemma statuses_append [simp]: "statuses (xs @ ys) = statuses xs @ statuses ys"
  by (simp add: statuses_def)

lemma calls_append [simp]: "calls (xs @ ys) = calls xs @ calls ys"
  by (simp add: calls_def)

lemma statuses_Cons: "statuses (e # es) = (case e of Status c \<Rightarrow> [c] | _ \<Rightarrow> []) @ statuses es"
  by (simp add: statuses_def)

lemma calls_Cons: "calls (e # es) = (case e of Called m \<Rightarrow> [m] | _ \<Rightarrow> []) @ calls es"
  by (simp add: calls_def)

lemma statuses_Nil [simp]: "statuses [] = []"
  by (simp add: statuses_def)

lemma calls_Nil [simp]: "calls [] = []"
  by (simp add: calls_def)

lemma disconnect_log_statuses: "statuses (disconnect_log s) = [DISCONNECTED]"
  by (simp add: disconnect_log_def statuses_Cons split: option.splits)

lemma disconnect_log_calls: "calls (disconnect_log s) = [M_disconnect]"
  by (simp add: disconnect_log_def calls_Cons split: option.splits)

lemma connect_failed_events:
  "events (snd (connect_failed msg s)) = events s @ disconnect_log s @ [ErrorMsg msg, Status ERROR]"
  by (simp add: connect_failed_def Let_def disconnect_events)

lemma connect_failed_fst [simp]: "fst (connect_failed msg s) = Inl msg"
  by (simp add: connect_failed_def Let_def)

lemma quietI:
  "events s' = events s @ tr \<Longrightarrow> statuses tr = [] \<Longrightarrow> calls tr = [] \<Longrightarrow>
   filter is_teardown tr = [] \<Longrightarrow> quiet s s'"
  by (simp add: quiet_def extendsI emitted_append)

lemma quiet_refl [simp]: "quiet s s"
  by (simp add: quiet_def)

lemma quiet_trans:
  assumes "quiet s s'" and "quiet s' s''"
  shows "quiet s s''"
proof -
  from assms have e1: "extends s s'" and e2: "extends s' s''"
    by (simp_all add: quiet_def)
  have split: "emitted s s'' = emitted s s' @ emitted s' s''"
    by (rule emitted_trans [OF e1 e2])
  have "extends s s''" by (rule extends_trans [OF e1 e2])
  moreover from assms have "statuses (emitted s s' @ emitted s' s'') = []"
    and "calls (emitted s s' @ emitted s' s'') = []"
    and "filter is_teardown (emitted s s' @ emitted s' s'') = []"
    by (simp_all add: quiet_def)
  ultimately show ?thesis
    by (simp only: quiet_def split)
qed

lemma quiet_create_input: "quiet s (create_input env s)"
  by (rule quietI [where tr = "[ContextCreated (next_id s)]"])
     (simp_all add: create_input_def new_context_def statuses_Cons calls_Cons is_teardown_def)

lemma quiet_create_output: "quiet s (create_output env s)"
  by (rule quietI [where tr = "[ContextCreated (next_id s)]"])
     (simp_all add: create_output_def new_context_def statuses_Cons calls_Cons is_teardown_def)

lemma quiet_resume_output: "quiet s (resume_output s)"
proof (cases "is_suspended (outputContext s)")
  case True
  then obtain c where c: "outputContext s = Some c" "ctx_status c = Suspended"
    by (auto simp: is_suspended_def split: option.splits)
  show ?thesis
    by (rule quietI [where tr = "[ContextResumed (ctx_id c)]"])
       (simp_all add: resume_output_def c statuses_Cons calls_Cons is_teardown_def)
next
  case False
  then have "resume_output s = s"
    by (auto simp: is_suspended_def resume_output_def split: option.splits)
  then show ?thesis by simp
qed

lemma quiet_create_analysers: "quiet s (create_analysers s)"
  by (rule quietI [where tr = "[NodeCreated (next_id s), NodeCreated (Suc (next_id s))]"])
     (simp_all add: create_analysers_def new_node_def statuses_Cons calls_Cons is_teardown_def)

lemma quiet_mic_setup: "quiet s (mic_setup env s)"
proof (cases "mic_granted env")
  case True
  show ?thesis
    by (rule quietI [where tr = "[NodeCreated (next_id s), NodeCreated (Suc (next_id s))]"])
       (simp_all add: mic_setup_def True new_node_def statuses_Cons calls_Cons is_teardown_def)
next
  case False
  show ?thesis
    by (rule quietI [where tr = "[]"]) (simp_all add: mic_setup_def False)
qed

lemma quiet_open_session: "quiet s (open_session env s)"
  by (rule quietI [where tr = "[SessionRequested (next_id s)]"])
     (simp_all add: open_session_def statuses_Cons calls_Cons is_teardown_def)

lemma connect_begin_events:
  "events (connect_begin s) = events s @ [Called M_connect, Status CONNECTING]"
  by (simp add: connect_begin_def)

lemma connect_unfold:
  "connect env s =
     (if connect_throws env s then connect_failed (fail_msg env) (connect_reached env s)
      else (Inr (), connect_reached env s))"
  by (simp add: connect_def connect_throws_def connect_reached_def Let_def)

lemma quiet_reached: "quiet (connect_begin s) (connect_reached env s)"
proof -
  let ?s1 = "connect_begin s"
  let ?s2 = "create_input env ?s1"
  let ?s3 = "create_output env ?s2"
  let ?s4 = "mic_setup env (create_analysers (resume_output ?s3))"
  have q2: "quiet ?s1 ?s2" by (rule quiet_create_input)
  have q3: "quiet ?s1 ?s3" by (rule quiet_trans [OF q2 quiet_create_output])
  have "quiet ?s3 (create_analysers (resume_output ?s3))"
    by (rule quiet_trans [OF quiet_resume_output quiet_create_analysers])
  then have "quiet ?s3 ?s4" by (rule quiet_trans [OF _ quiet_mic_setup])
  with q3 have q4: "quiet ?s1 ?s4" by (rule quiet_trans)
  have q5: "quiet ?s1 (open_session env ?s4)" by (rule quiet_trans [OF q4 quiet_open_session])
  show ?thesis
    unfolding connect_reached_def Let_def
    by (simp only: q2 q3 q4 q5 quiet_refl if_split) simp
qed

lemma connect_fst:
  "fst (connect env s) = (if connect_throws env s then Inl (fail_msg env) else Inr ())"
  by (simp add: connect_unfold)

lemma connect_events:
  "events (snd (connect env s)) =
     events s @ [Called M_connect, Status CONNECTING]
       @ emitted (connect_begin s) (connect_reached env s)
       @ (if connect_throws env s
          then disconnect_log (connect_reached env s) @ [ErrorMsg (fail_msg env), Status ERROR]
          else [])"
proof -
  from quiet_reached [of s env]
  have "events (connect_reached env s)
      = events (connect_begin s) @ emitted (connect_begin s) (connect_reached env s)"
    by (simp add: quiet_def extends_def)
  then have r: "events (connect_reached env s)
      = events s @ [Called M_connect, Status CONNECTING]
          @ emitted (connect_begin s) (connect_reached env s)"
    by (simp add: connect_begin_events)
  show ?thesis
  proof (cases "connect_throws env s")
    case True
    then show ?thesis
      by (simp add: connect_unfold connect_failed_events) (subst r, simp)
  next
    case False
    then show ?thesis
      by (simp add: connect_unfold) (subst r, simp)
  qed
qed

lemma connect_extends: "extends s (snd (connect env s))"
  by (rule extendsI, rule connect_events)

lemma connect_emitted:
  "emitted s (snd (connect env s)) =
     [Called M_connect, Status CONNECTING]
       @ emitted (connect_begin s) (connect_reached env s)
       @ (if connect_throws env s
          then disconnect_log (connect_reached env s) @ [ErrorMsg (fail_msg env), Status ERROR]
          else [])"
  by (rule emitted_append, rule connect_events)

lemma connect_statuses:
  "statuses (emitted s (snd (connect env s))) =
     (if connect_throws env s then [CONNECTING, DISCONNECTED, ERROR] else [CONNECTING])"
  using quiet_reached [of s env]
  by (simp add: connect_emitted quiet_def statuses_Cons disconnect_log_statuses)

lemma connect_calls:
  "calls (emitted s (snd (connect env s))) =
     (if connect_throws env s then [M_connect, M_disconnect] else [M_connect])"
  using quiet_reached [of s env]
  by (simp add: connect_emitted quiet_def calls_Cons disconnect_log_calls)

lemma connect_no_teardown:
  "\<not> connect_throws env s \<Longrightarrow> filter is_teardown (emitted s (snd (connect env s))) = []"
  using quiet_reached [of s env]
  by (simp add: connect_emitted quiet_def is_teardown_def)

section \<open>C4: connect does not tear down a prior session; disconnect before connect does\<close>

lemma connect_again_eq:
  "connect good_connect connected_state =
     (Inr (),
      \<lparr> inputContext = Some \<lparr> ctx_id = 7, ctx_status = Running, ctx_rate = 48000 \<rparr>,
        outputContext = Some \<lparr> ctx_id = 8, ctx_status = Running, ctx_rate = 48000 \<rparr>,
        sessionPromise = Some \<lparr> sid = 13, rejection = None \<rparr>,
        nextStartTime = 0, scriptProcessor = Some 12, inputSource = Some 11,
        inputAnalyser = Some 9, outputAnalyser = Some 10, isProcessingFile = False,
        hasActiveMic = True,
        events = [Called M_connect, Status CONNECTING, ContextCreated 0, ContextCreated 1,
                  NodeCreated 2, NodeCreated 3, NodeCreated 4, NodeCreated 5, SessionRequested 6,
                  Called M_connect, Status CONNECTING, ContextCreated 7, ContextCreated 8,
                  NodeCreated 9, NodeCreated 10, NodeCreated 11, NodeCreated 12,
                  SessionRequested 13],
        next_id = 14 \<rparr>)"
  by (simp add: connected_state_eq connect_def good_connect_def fails_def
      connect_begin_def create_input_def create_output_def is_suspended_def resume_output_def
      create_analysers_def new_context_def new_node_def mic_setup_def open_session_def
      emit_def Let_def)




section \<open>Logs of streaming and of the retry\<close>

lemma mic_quiet:
  "\<forall>x \<in> set tr. is_mic_event x \<Longrightarrow> statuses tr = [] \<and> calls tr = []"
  by (induction tr) (auto simp: is_mic_event_def statuses_Cons calls_Cons split: event.splits)

lemma stream_loop_quiet:
  "\<exists>tr. snd (stream_loop env sn data i s) = s\<lparr> events := events s @ tr \<rparr> \<and>
        statuses tr = [] \<and> calls tr = []"
proof (induction env sn data i s rule: stream_loop.induct)
  case (1 env sn data i s)
  show ?case
  proof (cases "i < length data \<and> chunk_throws env i = None")
    case False
    then have "snd (stream_loop env sn data i s) = s\<lparr> events := events s @ [] \<rparr>"
      by (subst stream_loop.simps) (auto split: option.splits)
    then show ?thesis by (intro exI [of _ "[]"]) simp
  next
    case True
    let ?c = "[ChunkSend sn (take CHUNK_SIZE (drop i data)), Delay 50]"
    let ?s1 = "emit (Delay 50) (emit (ChunkSend sn (take CHUNK_SIZE (drop i data))) s)"
    let ?s2 = "foldl deliver_frame ?s1 (mic_frames env i)"
    obtain mic where mic: "?s2 = ?s1\<lparr> events := events ?s1 @ mic \<rparr>"
      and mm: "\<forall>x \<in> set mic. is_mic_event x"
      using deliver_frames_log by blast
    obtain tr where tr: "snd (stream_loop env sn data (i + CHUNK_SIZE) ?s2) = ?s2\<lparr> events := events ?s2 @ tr \<rparr>"
      and qtr: "statuses tr = []" "calls tr = []"
      using "1.IH" [OF conjunct1 [OF True] conjunct2 [OF True]] by blast
    have unfold: "stream_loop env sn data i s = stream_loop env sn data (i + CHUNK_SIZE) ?s2"
      using True by (subst stream_loop.simps) simp
    have s2: "?s2 = s\<lparr> events := events s @ (?c @ mic) \<rparr>"
      by (subst mic) (simp add: emit_def)
    have res: "snd (stream_loop env sn data i s) = s\<lparr> events := events s @ (?c @ mic @ tr) \<rparr>"
      unfolding unfold tr by (subst (1 2) s2) simp
    have "statuses (?c @ mic @ tr) = [] \<and> calls (?c @ mic @ tr) = []"
      using mic_quiet [OF mm] qtr by (simp add: statuses_Cons calls_Cons)
    with res show ?thesis by blast
  qed
qed

lemma start_viz_quiet:
  "\<exists>tr. start_viz env data s = s\<lparr> events := events s @ tr \<rparr> \<and> statuses tr = [] \<and> calls tr = []"
proof (cases "inputContext s \<noteq> None \<and> inputAnalyser s \<noteq> None \<and> \<not> viz_throws env")
  case True
  then have "start_viz env data s = s\<lparr> events := events s @ [VizStarted (length data)] \<rparr>"
    by (simp add: start_viz_def emit_def del: not_None_eq)
  then show ?thesis
    by (intro exI [of _ "[VizStarted (length data)]"]) (simp add: statuses_Cons calls_Cons)
next
  case False
  then have "start_viz env data s = s\<lparr> events := events s @ [] \<rparr>"
    by (auto simp add: start_viz_def simp del: not_None_eq)
  then show ?thesis by (intro exI [of _ "[]"]) simp
qed

lemma streamAudioData_log:
  "\<exists>tr. snd (streamAudioData env data s)
          = s\<lparr> events := events s @ Called (M_streamAudioData data) # tr \<rparr> \<and>
        statuses tr = [] \<and> calls tr = []"
proof -
  let ?s0 = "emit (Called (M_streamAudioData data)) s"
  have s0: "?s0 = s\<lparr> events := events s @ [Called (M_streamAudioData data)] \<rparr>"
    by (simp add: emit_def)
  show ?thesis
  proof (cases "sessionPromise s")
    case None
    then have "snd (streamAudioData env data s) = ?s0"
      by (simp add: streamAudioData_def Let_def)
    then show ?thesis by (intro exI [of _ "[]"]) (simp add: emit_def)
  next
    case (Some p)
    show ?thesis
    proof (cases "rejection p")
      case (Some msg)
      with \<open>sessionPromise s = Some p\<close> have "snd (streamAudioData env data s) = ?s0"
        by (simp add: streamAudioData_def Let_def)
      then show ?thesis by (intro exI [of _ "[]"]) (simp add: emit_def)
    next
      case None
      let ?s1 = "start_viz env data ?s0"
      obtain v where v: "?s1 = ?s0\<lparr> events := events ?s0 @ v \<rparr>"
        and qv: "statuses v = []" "calls v = []"
        using start_viz_quiet by blast
      obtain tr where tr: "snd (stream_loop env (sid p) data 0 ?s1) = ?s1\<lparr> events := events ?s1 @ tr \<rparr>"
        and qtr: "statuses tr = []" "calls tr = []"
        using stream_loop_quiet by blast
      let ?s2 = "snd (stream_loop env (sid p) data 0 ?s1)"
      have s1: "?s1 = s\<lparr> events := events s @ (Called (M_streamAudioData data) # v) \<rparr>"
        by (subst v) (simp add: emit_def)
      have s2: "?s2 = s\<lparr> events := events s @ (Called (M_streamAudioData data) # v @ tr) \<rparr>"
        unfolding tr by (subst (1 2) s1) simp
      have "snd (streamAudioData env data s) = ?s2
          \<or> snd (streamAudioData env data s) = emit (TextSend (sid p) completion_prompt) ?s2"
        using \<open>sessionPromise s = Some p\<close> None
        by (simp add: streamAudioData_def Let_def split: prod.splits sum.splits option.splits)
      then show ?thesis
      proof
        assume "snd (streamAudioData env data s) = ?s2"
        with s2 have "snd (streamAudioData env data s)
            = s\<lparr> events := events s @ Called (M_streamAudioData data) # (v @ tr) \<rparr>" by simp
        moreover have "statuses (v @ tr) = [] \<and> calls (v @ tr) = []" using qv qtr by simp
        ultimately show ?thesis by blast
      next
        assume "snd (streamAudioData env data s) = emit (TextSend (sid p) completion_prompt) ?s2"
        then have "snd (streamAudioData env data s)
            = s\<lparr> events := events s @ Called (M_streamAudioData data)
                 # (v @ tr @ [TextSend (sid p) completion_prompt]) \<rparr>"
          by (subst (asm) s2) (simp add: emit_def)
        moreover have "statuses (v @ tr @ [TextSend (sid p) completion_prompt]) = []
            \<and> calls (v @ tr @ [TextSend (sid p) completion_prompt]) = []"
          using qv qtr by (simp add: statuses_Cons calls_Cons)
        ultimately show ?thesis by blast
      qed
    qed
  qed
qed

lemma streamAudioData_extends: "extends s (snd (streamAudioData env data s))"
  using streamAudioData_log [of env data s] by (auto intro: extendsI)

lemma streamAudioData_calls:
  "calls (emitted s (snd (streamAudioData env data s))) = [M_streamAudioData data]"
  using streamAudioData_log [of env data s] by (auto simp: emitted_def calls_Cons)

lemma streamAudioData_statuses:
  "statuses (emitted s (snd (streamAudioData env data s))) = []"
  using streamAudioData_log [of env data s] by (auto simp: emitted_def statuses_Cons)

lemma finally_unmute_simps [simp]:
  "events (finally_unmute s) = events s"
  "isProcessingFile (finally_unmute s) = False"
  "emitted s0 (finally_unmute s) = emitted s0 s"
  "extends s0 (finally_unmute s) = extends s0 s"
  by (simp_all add: finally_unmute_def emitted_def extends_def)

lemma upload_unmutes: "\<not> isProcessingFile (snd (upload_with_retry env data s))"
  by (simp add: upload_with_retry_def Let_def split: prod.splits sum.splits)

section \<open>C2: one reconnect and one re-run after a transient failure\<close>

lemma sendAudioFile_prepared:
  "prepare env s = (Inr data, s0) \<Longrightarrow> sendAudioFile env s = upload_with_retry env data s0"
  by (simp add: sendAudioFile_def)

lemma upload_retry_unfold:
  assumes "streamAudioData (first_attempt env) data s0 = (Inl msg, s1)" and "transient msg"
  shows "upload_with_retry env data s0 =
     (case fst (connect (reconnect env) (disconnect s1)) of
        Inl m \<Rightarrow> (Inl m, finally_unmute (snd (connect (reconnect env) (disconnect s1))))
      | Inr u \<Rightarrow>
          (fst (streamAudioData (second_attempt env) data (snd (connect (reconnect env) (disconnect s1)))),
           finally_unmute
             (snd (streamAudioData (second_attempt env) data (snd (connect (reconnect env) (disconnect s1)))))))"
  using assms
  by (simp add: upload_with_retry_def Let_def split: prod.splits sum.splits)

lemma first_attempt_calls:
  assumes "streamAudioData env1 data s0 = (Inl msg, s1)"
  shows "extends s0 s1" and "calls (emitted s0 s1) = [M_streamAudioData data]"
  using streamAudioData_extends [of s0 env1 data] streamAudioData_calls [of s0 env1 data] assms
  by simp_all

text \<open>
  Claim C2, amended. Let an upload reach streaming with the normalised buffer \<open>data\<close>, and
  let the first attempt fail with a transient message. Then \<^verbatim>\<open>sendAudioFile\<close> calls
  \<^verbatim>\<open>disconnect\<close> and \<^verbatim>\<open>connect\<close> once. If that \<^verbatim>\<open>connect\<close> returns normally, streaming is
  re-run exactly once, on the same buffer, and its outcome (success or failure) is the
  outcome of the job: the calls made since streaming began are the first attempt,
  \<^verbatim>\<open>disconnect\<close>, \<^verbatim>\<open>connect\<close> and the re-run, and nothing more. If that \<^verbatim>\<open>connect\<close> throws,
  its error is the outcome of the job and streaming is not re-run (the fourth call is the
  cleanup \<^verbatim>\<open>disconnect\<close> inside \<^verbatim>\<open>connect\<close>). In every case \<^verbatim>\<open>isProcessingFile\<close> is false
  when the job ends.
\<close>

theorem C2_one_reconnect_one_rerun:
  assumes "prepare env s = (Inr data, s0)"
    and "streamAudioData (first_attempt env) data s0 = (Inl msg, s1)"
    and "transient msg"
  shows "(fst (connect (reconnect env) (disconnect s1)) = Inr () \<longrightarrow>
            calls (emitted s0 (snd (sendAudioFile env s)))
              = [M_streamAudioData data, M_disconnect, M_connect, M_streamAudioData data] \<and>
            fst (sendAudioFile env s)
              = fst (streamAudioData (second_attempt env) data
                       (snd (connect (reconnect env) (disconnect s1))))) \<and>
         (fst (connect (reconnect env) (disconnect s1)) \<noteq> Inr () \<longrightarrow>
            calls (emitted s0 (snd (sendAudioFile env s)))
              = [M_streamAudioData data, M_disconnect, M_connect, M_disconnect] \<and>
            fst (sendAudioFile env s) = fst (connect (reconnect env) (disconnect s1))) \<and>
         \<not> isProcessingFile (snd (sendAudioFile env s))"
proof -
  let ?s2 = "disconnect s1"
  let ?rc = "connect (reconnect env) ?s2"
  let ?s3 = "snd ?rc"
  let ?r2 = "streamAudioData (second_attempt env) data ?s3"
  have e01: "extends s0 s1" and c01: "calls (emitted s0 s1) = [M_streamAudioData data]"
    using first_attempt_calls [OF assms(2)] by simp_all
  have e02: "extends s0 ?s2" by (rule extends_trans [OF e01 disconnect_extends])
  have c02: "calls (emitted s0 ?s2) = [M_streamAudioData data, M_disconnect]"
    by (simp add: emitted_trans [OF e01 disconnect_extends] c01 disconnect_emitted disconnect_log_calls)
  have e03: "extends s0 ?s3" by (rule extends_trans [OF e02 connect_extends])
  have c03: "calls (emitted s0 ?s3) = [M_streamAudioData data, M_disconnect]
      @ (if connect_throws (reconnect env) ?s2 then [M_connect, M_disconnect] else [M_connect])"
    by (simp only: emitted_trans [OF e02 connect_extends] calls_append c02 connect_calls)
  have c04: "calls (emitted s0 (snd ?r2)) = calls (emitted s0 ?s3) @ [M_streamAudioData data]"
    by (simp only: emitted_trans [OF e03 streamAudioData_extends] calls_append streamAudioData_calls)
  have send: "sendAudioFile env s =
     (case fst ?rc of
        Inl m \<Rightarrow> (Inl m, finally_unmute ?s3)
      | Inr u \<Rightarrow> (fst ?r2, finally_unmute (snd ?r2)))"
    by (simp only: sendAudioFile_prepared [OF assms(1)] upload_retry_unfold [OF assms(2,3)])
  show ?thesis
  proof (cases "connect_throws (reconnect env) ?s2")
    case True
    then have f: "fst ?rc = Inl (fail_msg (reconnect env))" by (simp add: connect_fst)
    then have "sendAudioFile env s = (Inl (fail_msg (reconnect env)), finally_unmute ?s3)"
      by (simp add: send)
    with f c03 True show ?thesis by simp
  next
    case False
    then have f: "fst ?rc = Inr ()" by (simp add: connect_fst)
    then have "sendAudioFile env s = (fst ?r2, finally_unmute (snd ?r2))"
      by (simp add: send)
    with f c03 c04 False show ?thesis by simp
  qed
qed

lemma normalize_demo: "peak_normalize [0.5, -0.25] = [0.95, -0.475]"
  by (simp add: peak_normalize_def scale_all_map maxVal_Max)

lemma normalize_demo_nf: "peak_normalize [1/2, - (1/4)] = [19/20, - (19/40)]"
  using normalize_demo by simp

lemma transient_demo: "transient ''Failed to send chunk: WebSocket is closed''"
  by (simp add: transient_def)

lemma prepare_demo:
  "prepare (upload_env f r g) connected_state
     = (Inr [0.95, -0.475], connected_state\<lparr> isProcessingFile := True \<rparr>)"
  by (simp add: prepare_def upload_env_def Let_def normalize_demo_nf is_suspended_def
      resume_output_def resume_input_def decode_context_def connected_state_eq)

lemma first_attempt_demo:
  "streamAudioData flaky_stream [0.95, -0.475] (connected_state\<lparr> isProcessingFile := True \<rparr>)
     = (Inl ''Failed to send chunk: WebSocket is closed'',
        connected_state\<lparr> isProcessingFile := True,
          events := events connected_state @ [Called (M_streamAudioData [0.95, -0.475]), VizStarted 2] \<rparr>)"
  by (simp add: streamAudioData_def Let_def flaky_stream_def start_viz_def stream_loop.simps
      connected_state_eq emit_def)

lemma disconnect_demo:
  "disconnect (connected_state\<lparr> isProcessingFile := True,
       events := events connected_state @ [Called (M_streamAudioData [0.95, -0.475]), VizStarted 2] \<rparr>)
     = connected_state\<lparr> inputContext := None, outputContext := None, sessionPromise := None,
         scriptProcessor := None, inputSource := None, hasActiveMic := False,
         events := events connected_state @
           [Called (M_streamAudioData [0.95, -0.475]), VizStarted 2,
            Called M_disconnect, SessionClosed 6, NodeDisconnected 5, NodeDisconnected 4,
            ContextClosed 0, ContextClosed 1, Status DISCONNECTED] \<rparr>"
  by (simp add: disconnect_def Let_def close_session_def disconnect_node_def close_context_def
      emit_def connected_state_eq)

lemma reconnect_fail_demo:
  "connect failing_connect
     (connected_state\<lparr> inputContext := None, outputContext := None, sessionPromise := None,
         scriptProcessor := None, inputSource := None, hasActiveMic := False,
         events := events connected_state @
           [Called (M_streamAudioData [0.95, -0.475]), VizStarted 2,
            Called M_disconnect, SessionClosed 6, NodeDisconnected 5, NodeDisconnected 4,
            ContextClosed 0, ContextClosed 1, Status DISCONNECTED] \<rparr>)
     = (Inl ''cannot create AudioContext'',
        connected_state\<lparr> inputContext := None, outputContext := None, sessionPromise := None,
         scriptProcessor := None, inputSource := None, hasActiveMic := False,
         events := events connected_state @
           [Called (M_streamAudioData [0.95, -0.475]), VizStarted 2,
            Called M_disconnect, SessionClosed 6, NodeDisconnected 5, NodeDisconnected 4,
            ContextClosed 0, ContextClosed 1, Status DISCONNECTED,
            Called M_connect, Status CONNECTING, Called M_disconnect, Status DISCONNECTED,
            ErrorMsg ''cannot create AudioContext'', Status ERROR] \<rparr>)"
  by (simp add: connect_def Let_def failing_connect_def fails_def fail_msg_def connect_begin_def
      connect_failed_def disconnect_def close_session_def disconnect_node_def close_context_def
      emit_def connected_state_eq)

lemma reconnect_ok_demo:
  "connect good_connect
     (connected_state\<lparr> inputContext := None, outputContext := None, sessionPromise := None,
         scriptProcessor := None, inputSource := None, hasActiveMic := False,
         events := events connected_state @
           [Called (M_streamAudioData [0.95, -0.475]), VizStarted 2,
            Called M_disconnect, SessionClosed 6, NodeDisconnected 5, NodeDisconnected 4,
            ContextClosed 0, ContextClosed 1, Status DISCONNECTED] \<rparr>)
     = (Inr (),
        \<lparr> inputContext = Some \<lparr> ctx_id = 7, ctx_status = Running, ctx_rate = 48000 \<rparr>,
          outputContext = Some \<lparr> ctx_id = 8, ctx_status = Running, ctx_rate = 48000 \<rparr>,
          sessionPromise = Some \<lparr> sid = 13, rejection = None \<rparr>,
          nextStartTime = 0, scriptProcessor = Some 12, inputSource = Some 11,
          inputAnalyser = Some 9, outputAnalyser = Some 10, isProcessingFile = False,
          hasActiveMic = True,
          events = events connected_state @
           [Called (M_streamAudioData [0.95, -0.475]), VizStarted 2,
            Called M_disconnect, SessionClosed 6, NodeDisconnected 5, NodeDisconnected 4,
            ContextClosed 0, ContextClosed 1, Status DISCONNECTED,
            Called M_connect, Status CONNECTING, ContextCreated 7, ContextCreated 8,
            NodeCreated 9, NodeCreated 10, NodeCreated 11, NodeCreated 12, SessionRequested 13],
          next_id = 14 \<rparr>)"
  by (simp add: connect_def good_connect_def fails_def
      connect_begin_def create_input_def create_output_def is_suspended_def resume_output_def
      create_analysers_def new_context_def new_node_def mic_setup_def open_session_def
      emit_def Let_def connected_state_eq)

lemma chatty_demo:
  "sessionPromise s = Some \<lparr> sid = n, rejection = None \<rparr> \<Longrightarrow>
   inputContext s = Some c \<Longrightarrow> inputAnalyser s = Some a \<Longrightarrow> scriptProcessor s = Some q \<Longrightarrow>
   streamAudioData chatty_stream [0.95, -0.475] s
     = (Inr (),
        s\<lparr> events := events s @
           [Called (M_streamAudioData [0.95, -0.475]), VizStarted 2,
            ChunkSend n [0.95, -0.475], Delay 50]
           @ (if isProcessingFile s then [] else [MicSend n [0.125] (ctx_rate c)])
           @ [TextSend n completion_prompt] \<rparr>)"
  by (simp add: streamAudioData_def Let_def chatty_stream_def start_viz_def stream_loop.simps
      CHUNK_SIZE_def deliver_frame_def onaudioprocess_def emit_def)

lemma retry_fails_demo:
  "sendAudioFile (upload_env flaky_stream failing_connect calm_stream) connected_state
     = (Inl ''cannot create AudioContext'',
        connected_state\<lparr> inputContext := None, outputContext := None, sessionPromise := None,
         scriptProcessor := None, inputSource := None, hasActiveMic := False,
         events := events connected_state @
           [Called (M_streamAudioData [0.95, -0.475]), VizStarted 2,
            Called M_disconnect, SessionClosed 6, NodeDisconnected 5, NodeDisconnected 4,
            ContextClosed 0, ContextClosed 1, Status DISCONNECTED,
            Called M_connect, Status CONNECTING, Called M_disconnect, Status DISCONNECTED,
            ErrorMsg ''cannot create AudioContext'', Status ERROR] \<rparr>)"
proof -
  have u: "first_attempt (upload_env flaky_stream failing_connect calm_stream) = flaky_stream"
    "reconnect (upload_env flaky_stream failing_connect calm_stream) = failing_connect"
    by (simp_all add: upload_env_def)
  show ?thesis
    unfolding sendAudioFile_prepared [OF prepare_demo]
      upload_retry_unfold [of "upload_env flaky_stream failing_connect calm_stream",
        unfolded u, OF first_attempt_demo transient_demo]
      disconnect_demo reconnect_fail_demo
    by (simp add: finally_unmute_def connected_state_eq)
qed

lemma retry_ok_demo:
  "sendAudioFile (upload_env flaky_stream good_connect chatty_stream) connected_state
     = (Inr (),
        \<lparr> inputContext = Some \<lparr> ctx_id = 7, ctx_status = Running, ctx_rate = 48000 \<rparr>,
          outputContext = Some \<lparr> ctx_id = 8, ctx_status = Running, ctx_rate = 48000 \<rparr>,
          sessionPromise = Some \<lparr> sid = 13, rejection = None \<rparr>,
          nextStartTime = 0, scriptProcessor = Some 12, inputSource = Some 11,
          inputAnalyser = Some 9, outputAnalyser = Some 10, isProcessingFile = False,
          hasActiveMic = True,
          events = events connected_state @
           [Called (M_streamAudioData [0.95, -0.475]), VizStarted 2,
            Called M_disconnect, SessionClosed 6, NodeDisconnected 5, NodeDisconnected 4,
            ContextClosed 0, ContextClosed 1, Status DISCONNECTED,
            Called M_connect, Status CONNECTING, ContextCreated 7, ContextCreated 8,
            NodeCreated 9, NodeCreated 10, NodeCreated 11, NodeCreated 12, SessionRequested 13,
            Called (M_streamAudioData [0.95, -0.475]), VizStarted 2,
            ChunkSend 13 [0.95, -0.475], Delay 50, MicSend 13 [0.125] 48000,
            TextSend 13 completion_prompt],
          next_id = 14 \<rparr>)"
proof -
  have u: "first_attempt (upload_env flaky_stream good_connect chatty_stream) = flaky_stream"
    "reconnect (upload_env flaky_stream good_connect chatty_stream) = good_connect"
    "second_attempt (upload_env flaky_stream good_connect chatty_stream) = chatty_stream"
    by (simp_all add: upload_env_def)
  let ?s3 = "\<lparr> inputContext = Some \<lparr> ctx_id = 7, ctx_status = Running, ctx_rate = 48000 \<rparr>,
          outputContext = Some \<lparr> ctx_id = 8, ctx_status = Running, ctx_rate = 48000 \<rparr>,
          sessionPromise = Some \<lparr> sid = 13, rejection = None \<rparr>,
          nextStartTime = 0, scriptProcessor = Some 12, inputSource = Some 11,
          inputAnalyser = Some 9, outputAnalyser = Some 10, isProcessingFile = False,
          hasActiveMic = True,
          events = events connected_state @
           [Called (M_streamAudioData [0.95, -0.475]), VizStarted 2,
            Called M_disconnect, SessionClosed 6, NodeDisconnected 5, NodeDisconnected 4,
            ContextClosed 0, ContextClosed 1, Status DISCONNECTED,
            Called M_connect, Status CONNECTING, ContextCreated 7, ContextCreated 8,
            NodeCreated 9, NodeCreated 10, NodeCreated 11, NodeCreated 12, SessionRequested 13],
          next_id = 14 \<rparr>"
  have second: "streamAudioData chatty_stream [0.95, -0.475] ?s3
     = (Inr (),
        ?s3\<lparr> events := events ?s3 @
           [Called (M_streamAudioData [0.95, -0.475]), VizStarted 2,
            ChunkSend 13 [0.95, -0.475], Delay 50, MicSend 13 [0.125] 48000,
            TextSend 13 completion_prompt] \<rparr>)"
    by (subst chatty_demo [where n = 13 and c = "\<lparr> ctx_id = 7, ctx_status = Running, ctx_rate = 48000 \<rparr>"
          and a = 9 and q = 12])
       simp_all
  show ?thesis
    unfolding sendAudioFile_prepared [OF prepare_demo]
      upload_retry_unfold [of "upload_env flaky_stream good_connect chatty_stream",
        unfolded u, OF first_attempt_demo transient_demo]
      disconnect_demo reconnect_ok_demo
    by (simp only: fst_conv snd_conv sum.case second) (simp add: finally_unmute_def)
qed

lemma no_retry_demo:
  "sendAudioFile (upload_env chatty_stream good_connect calm_stream) connected_state
     = (Inr (),
        connected_state\<lparr> events := events connected_state @
           [Called (M_streamAudioData [0.95, -0.475]), VizStarted 2,
            ChunkSend 6 [0.95, -0.475], Delay 50, TextSend 6 completion_prompt] \<rparr>)"
proof -
  have "streamAudioData chatty_stream [0.95, -0.475] (connected_state\<lparr> isProcessingFile := True \<rparr>)
     = (Inr (),
        connected_state\<lparr> isProcessingFile := True, events := events connected_state @
           [Called (M_streamAudioData [0.95, -0.475]), VizStarted 2,
            ChunkSend 6 [0.95, -0.475], Delay 50, TextSend 6 completion_prompt] \<rparr>)"
    by (subst chatty_demo [where n = 6 and c = "\<lparr> ctx_id = 0, ctx_status = Running, ctx_rate = 48000 \<rparr>"
          and a = 2 and q = 5])
       (simp_all add: connected_state_eq)
  then show ?thesis
    unfolding sendAudioFile_prepared [OF prepare_demo]
    by (simp add: upload_with_retry_def upload_env_def finally_unmute_def connected_state_eq)
qed

text \<open>
  Claim C2 as stated fails where the reconnect itself fails. The first attempt fails at
  its first chunk with a message containing \<open>closed\<close>, which is transient; the retry path
  disconnects and calls \<^verbatim>\<open>connect()\<close>, whose \<^verbatim>\<open>new AudioContext()\<close> throws; \<^verbatim>\<open>connect()\<close>
  cleans up and rethrows, and \<^verbatim>\<open>sendAudioFile\<close> ends with that error. Streaming was run
  once: there is one reconnect and no re-run.
\<close>

theorem C2_counterexample:
  "fst (prepare (upload_env flaky_stream failing_connect calm_stream) connected_state)
     = Inr [0.95, -0.475] \<and>
   fst (streamAudioData (first_attempt (upload_env flaky_stream failing_connect calm_stream))
          [0.95, -0.475]
          (snd (prepare (upload_env flaky_stream failing_connect calm_stream) connected_state)))
     = Inl ''Failed to send chunk: WebSocket is closed'' \<and>
   transient ''Failed to send chunk: WebSocket is closed'' \<and>
   fst (sendAudioFile (upload_env flaky_stream failing_connect calm_stream) connected_state)
     = Inl ''cannot create AudioContext'' \<and>
   calls (emitted connected_state
            (snd (sendAudioFile (upload_env flaky_stream failing_connect calm_stream) connected_state)))
     = [M_streamAudioData [0.95, -0.475], M_disconnect, M_connect, M_disconnect]"
proof -
  have u: "first_attempt (upload_env flaky_stream failing_connect calm_stream) = flaky_stream"
    by (simp add: upload_env_def)
  show ?thesis
    unfolding u prepare_demo retry_fails_demo
    by (simp add: first_attempt_demo [simplified] transient_demo emitted_def calls_Cons)
qed

text \<open>
  With a reconnect that succeeds, the same job makes exactly four calls after preparing:
  the first streaming attempt, \<^verbatim>\<open>disconnect\<close>, \<^verbatim>\<open>connect\<close>, and one re-run on the same
  buffer; it returns normally with the flag cleared.
\<close>

theorem C2_witness:
  "prepare (upload_env flaky_stream good_connect chatty_stream) connected_state
     = (Inr [0.95, -0.475], connected_state\<lparr> isProcessingFile := True \<rparr>) \<and>
   fst (streamAudioData (first_attempt (upload_env flaky_stream good_connect chatty_stream))
          [0.95, -0.475] (connected_state\<lparr> isProcessingFile := True \<rparr>))
     = Inl ''Failed to send chunk: WebSocket is closed'' \<and>
   transient ''Failed to send chunk: WebSocket is closed'' \<and>
   calls (emitted (connected_state\<lparr> isProcessingFile := True \<rparr>)
            (snd (sendAudioFile (upload_env flaky_stream good_connect chatty_stream) connected_state)))
     = [M_streamAudioData [0.95, -0.475], M_disconnect, M_connect, M_streamAudioData [0.95, -0.475]] \<and>
   fst (sendAudioFile (upload_env flaky_stream good_connect chatty_stream) connected_state) = Inr () \<and>
   \<not> isProcessingFile (snd (sendAudioFile (upload_env flaky_stream good_connect chatty_stream) connected_state))"
proof -
  let ?E = "upload_env flaky_stream good_connect chatty_stream"
  let ?s0 = "connected_state\<lparr> isProcessingFile := True \<rparr>"
  let ?s1 = "connected_state\<lparr> isProcessingFile := True,
          events := events connected_state @ [Called (M_streamAudioData [0.95, -0.475]), VizStarted 2] \<rparr>"
  have u: "first_attempt ?E = flaky_stream" "reconnect ?E = good_connect"
    by (simp_all add: upload_env_def)
  have first: "streamAudioData (first_attempt ?E) [0.95, -0.475] ?s0
      = (Inl ''Failed to send chunk: WebSocket is closed'', ?s1)"
    unfolding u by (rule first_attempt_demo)
  have ok: "fst (connect (reconnect ?E) (disconnect ?s1)) = Inr ()"
    unfolding u disconnect_demo reconnect_ok_demo by simp
  have p: "prepare ?E connected_state = (Inr [0.95, -0.475], ?s0)"
    by (rule prepare_demo)
  from C2_one_reconnect_one_rerun [OF p first transient_demo] ok
  have "calls (emitted ?s0 (snd (sendAudioFile ?E connected_state)))
      = [M_streamAudioData [0.95, -0.475], M_disconnect, M_connect, M_streamAudioData [0.95, -0.475]]"
    and "\<not> isProcessingFile (snd (sendAudioFile ?E connected_state))"
    by simp_all
  moreover have "fst (sendAudioFile ?E connected_state) = Inr ()"
    unfolding retry_ok_demo by simp
  ultimately show ?thesis
    using p first transient_demo by simp
qed

section \<open>C7: the microphone is live during the retry\<close>

text \<open>
  Claim C7 evaluated on the code. An upload starts on a connected manager with the
  microphone installed; the first streaming attempt fails because the socket has closed;
  the retry path calls \<^verbatim>\<open>disconnect()\<close>, which clears \<^verbatim>\<open>isProcessingFile\<close>, and
  \<^verbatim>\<open>connect()\<close>, which installs a new capture callback; the flag is false from then on. A
  microphone frame that arrives during the pacing delay of the re-run is sent on the new
  session between the chunk and the completion prompt. The same frame arriving during a
  first attempt that succeeds is dropped.
\<close>

theorem C7_mic_forwarded_during_retry:
  "fst (sendAudioFile (upload_env flaky_stream good_connect chatty_stream) connected_state) = Inr () \<and>
   emitted connected_state
     (snd (sendAudioFile (upload_env flaky_stream good_connect chatty_stream) connected_state))
     = [Called (M_streamAudioData [0.95, -0.475]), VizStarted 2,
        Called M_disconnect, SessionClosed 6, NodeDisconnected 5, NodeDisconnected 4,
        ContextClosed 0, ContextClosed 1, Status DISCONNECTED,
        Called M_connect, Status CONNECTING, ContextCreated 7, ContextCreated 8,
        NodeCreated 9, NodeCreated 10, NodeCreated 11, NodeCreated 12, SessionRequested 13,
        Called (M_streamAudioData [0.95, -0.475]), VizStarted 2,
        ChunkSend 13 [0.95, -0.475], Delay 50, MicSend 13 [0.125] 48000,
        TextSend 13 ''I have finished playing. Generate a musical continuation now.''] \<and>
   isProcessingFile
     (disconnect (snd (streamAudioData flaky_stream [0.95, -0.475]
                         (connected_state\<lparr> isProcessingFile := True \<rparr>)))) = False \<and>
   emitted connected_state
     (snd (sendAudioFile (upload_env chatty_stream good_connect calm_stream) connected_state))
     = [Called (M_streamAudioData [0.95, -0.475]), VizStarted 2,
        ChunkSend 6 [0.95, -0.475], Delay 50,
        TextSend 6 ''I have finished playing. Generate a musical continuation now.'']"
  unfolding retry_ok_demo no_retry_demo
  by (simp add: emitted_def completion_prompt_def)

section \<open>C9: the status notifications\<close>

lemma chain_append: "chain R a (xs @ ys) = (chain R a xs \<and> chain R (last (a # xs)) ys)"
  by (induction xs arbitrary: a) auto

lemma current_status_extends:
  "extends s s' \<Longrightarrow> current_status s' = last (current_status s # statuses (emitted s s'))"
  by (simp add: current_status_def extends_def last_append)

lemma quiet_update [simp]:
  "quiet s (s'\<lparr> isProcessingFile := b \<rparr>) = quiet s s'"
  by (simp add: quiet_def extends_def emitted_def)

lemma quiet_resume_input: "quiet s (resume_input s)"
proof (cases "is_suspended (inputContext s)")
  case True
  then obtain c where c: "inputContext s = Some c" "ctx_status c = Suspended"
    by (auto simp: is_suspended_def split: option.splits)
  show ?thesis
    by (rule quietI [where tr = "[ContextResumed (ctx_id c)]"])
       (simp_all add: resume_input_def c statuses_Cons calls_Cons is_teardown_def)
next
  case False
  then have "resume_input s = s"
    by (auto simp: is_suspended_def resume_input_def split: option.splits)
  then show ?thesis by simp
qed

lemma quiet_decode_context: "quiet s (decode_context s)"
proof (cases "inputContext s = None")
  case True
  show ?thesis
    by (rule quietI [where tr = "[ContextCreated (next_id s)]"])
       (simp_all add: decode_context_def True statuses_Cons calls_Cons is_teardown_def)
next
  case False
  then have "decode_context s = s" by (simp add: decode_context_def)
  then show ?thesis by simp
qed

lemma quiet_prepare: "quiet s (snd (prepare env s))"
proof -
  let ?s1 = "s\<lparr> isProcessingFile := True \<rparr>"
  let ?s2 = "resume_output ?s1"
  let ?s3 = "resume_input ?s2"
  let ?s4 = "decode_context ?s3"
  have q1: "quiet s ?s1" by simp
  have q2: "quiet s ?s2" by (rule quiet_trans [OF q1 quiet_resume_output])
  have q3: "quiet s ?s3" by (rule quiet_trans [OF q2 quiet_resume_input])
  have q4: "quiet s ?s4" by (rule quiet_trans [OF q3 quiet_decode_context])
  show ?thesis
    unfolding prepare_def Let_def
    by (simp add: q1 q2 q3 q4 split: sum.splits)
qed

lemma upload_statuses:
  "extends s (snd (upload_with_retry env data s)) \<and>
   statuses (emitted s (snd (upload_with_retry env data s)))
     \<in> {[], [DISCONNECTED, CONNECTING], [DISCONNECTED, CONNECTING, DISCONNECTED, ERROR]}"
proof -
  obtain r1 s1 where r1: "streamAudioData (first_attempt env) data s = (r1, s1)"
    by (cases "streamAudioData (first_attempt env) data s")
  let ?s2 = "disconnect s1"
  let ?s3 = "snd (connect (reconnect env) ?s2)"
  let ?s4 = "snd (streamAudioData (second_attempt env) data ?s3)"
  have e1: "extends s s1" using streamAudioData_extends [of s "first_attempt env" data] r1 by simp
  have e2: "extends s ?s2" by (rule extends_trans [OF e1 disconnect_extends])
  have e3: "extends s ?s3" by (rule extends_trans [OF e2 connect_extends])
  have e4: "extends s ?s4" by (rule extends_trans [OF e3 streamAudioData_extends])
  have t1: "statuses (emitted s s1) = []"
    using streamAudioData_statuses [of s "first_attempt env" data] r1 by simp
  have t2: "statuses (emitted s ?s2) = [DISCONNECTED]"
    by (simp add: emitted_trans [OF e1 disconnect_extends] t1 disconnect_emitted disconnect_log_statuses)
  have t3: "statuses (emitted s ?s3) = DISCONNECTED #
      (if connect_throws (reconnect env) ?s2 then [CONNECTING, DISCONNECTED, ERROR] else [CONNECTING])"
    by (simp only: emitted_trans [OF e2 connect_extends] statuses_append t2 connect_statuses) simp
  have t4: "statuses (emitted s ?s4) = statuses (emitted s ?s3)"
    by (simp only: emitted_trans [OF e3 streamAudioData_extends] statuses_append
        streamAudioData_statuses append_Nil2)
  have "snd (upload_with_retry env data s) = finally_unmute s1
      \<or> (snd (upload_with_retry env data s) = finally_unmute ?s3
          \<and> connect_throws (reconnect env) ?s2)
      \<or> (snd (upload_with_retry env data s) = finally_unmute ?s4
          \<and> \<not> connect_throws (reconnect env) ?s2)"
  proof (cases r1)
    case (Inr u)
    with r1 have "snd (upload_with_retry env data s) = finally_unmute s1"
      by (simp add: upload_with_retry_def)
    then show ?thesis by simp
  next
    case (Inl msg)
    with r1 have r1': "streamAudioData (first_attempt env) data s = (Inl msg, s1)" by simp
    show ?thesis
    proof (cases "transient msg")
      case False
      with r1' have "snd (upload_with_retry env data s) = finally_unmute s1"
        by (simp add: upload_with_retry_def)
      then show ?thesis by simp
    next
      case True
      show ?thesis
      proof (cases "connect_throws (reconnect env) ?s2")
        case thr: True
        then have "fst (connect (reconnect env) ?s2) = Inl (fail_msg (reconnect env))"
          by (simp add: connect_fst)
        then have "snd (upload_with_retry env data s) = finally_unmute ?s3"
          by (simp add: upload_retry_unfold [OF r1' True])
        with thr show ?thesis by simp
      next
        case nthr: False
        then have "fst (connect (reconnect env) ?s2) = Inr ()"
          by (simp add: connect_fst)
        then have "snd (upload_with_retry env data s) = finally_unmute ?s4"
          by (simp add: upload_retry_unfold [OF r1' True])
        with nthr show ?thesis by simp
      qed
    qed
  qed
  then show ?thesis
    using e1 e3 e4 t1 t3 t4 by (elim disjE conjE) simp_all
qed

lemma sendAudioFile_statuses:
  "extends s (snd (sendAudioFile env s)) \<and>
   statuses (emitted s (snd (sendAudioFile env s)))
     \<in> {[], [DISCONNECTED, CONNECTING], [DISCONNECTED, CONNECTING, DISCONNECTED, ERROR]}"
proof -
  obtain r s0 where p: "prepare env s = (r, s0)" by (cases "prepare env s")
  have q: "extends s s0" "statuses (emitted s s0) = []"
    using quiet_prepare [of s env] p by (simp_all add: quiet_def)
  show ?thesis
  proof (cases r)
    case (Inl m)
    with p have "snd (sendAudioFile env s) = s0" by (simp add: sendAudioFile_def)
    with q show ?thesis by simp
  next
    case (Inr data)
    let ?s' = "snd (upload_with_retry env data s0)"
    from Inr p have s': "snd (sendAudioFile env s) = ?s'" by (simp add: sendAudioFile_def)
    have u: "extends s0 ?s'" "statuses (emitted s0 ?s')
        \<in> {[], [DISCONNECTED, CONNECTING], [DISCONNECTED, CONNECTING, DISCONNECTED, ERROR]}"
      using upload_statuses [of s0 env data] by simp_all
    have "extends s ?s'" by (rule extends_trans [OF q(1) u(1)])
    moreover have "statuses (emitted s ?s') = statuses (emitted s0 ?s')"
      by (simp add: emitted_trans [OF q(1) u(1)] q(2))
    ultimately show ?thesis using u(2) by (simp only: s')
  qed
qed

lemma stimulus_step:
  assumes "enabled (current_status s) x"
  shows "extends s (apply_stimulus s x) \<and>
         chain code_transition (current_status s) (statuses (emitted s (apply_stimulus s x)))"
proof (cases x)
  case (Connect env)
  with assms show ?thesis
    by (auto simp: connect_extends connect_statuses code_transition_def spec_transition_def)
next
  case Disconnect
  then show ?thesis
    by (simp add: disconnect_extends disconnect_emitted disconnect_log_statuses
        code_transition_def spec_transition_def)
next
  case OnOpen
  have "events (onopen s) = events s @ [Status CONNECTED]" by (simp add: onopen_def)
  with OnOpen assms show ?thesis
    by (simp add: extendsI emitted_append statuses_Cons code_transition_def spec_transition_def)
next
  case OnClose
  have "events (onclose s) = events s @ [Status DISCONNECTED]" by (simp add: onclose_def)
  with OnClose show ?thesis
    by (simp add: extendsI emitted_append statuses_Cons code_transition_def spec_transition_def)
next
  case (OnError msg)
  have "events (onerror msg s) = events s @ [Status ERROR, ErrorMsg (if msg = [] then ''Unknown error'' else msg)]"
    by (simp add: onerror_def)
  with OnError assms show ?thesis
    by (auto simp: extendsI emitted_append statuses_Cons code_transition_def spec_transition_def)
next
  case (Upload env)
  with sendAudioFile_statuses [of s env] show ?thesis
    by (auto simp: code_transition_def spec_transition_def)
qed


lemma failed_connect_demo:
  "connect failing_connect initial
     = (Inl ''cannot create AudioContext'',
        initial\<lparr> events := [Called M_connect, Status CONNECTING, Called M_disconnect,
                    Status DISCONNECTED, ErrorMsg ''cannot create AudioContext'', Status ERROR] \<rparr>)"
  by (simp add: connect_def Let_def failing_connect_def fails_def fail_msg_def connect_begin_def
      connect_failed_def disconnect_def close_session_def disconnect_node_def close_context_def
      emit_def initial_def)

lemma connect_after_failure_demo:
  "events (snd (connect good_connect
      (initial\<lparr> events := [Called M_connect, Status CONNECTING, Called M_disconnect,
                    Status DISCONNECTED, ErrorMsg ''cannot create AudioContext'', Status ERROR] \<rparr>)))
     = [Called M_connect, Status CONNECTING, Called M_disconnect,
        Status DISCONNECTED, ErrorMsg ''cannot create AudioContext'', Status ERROR,
        Called M_connect, Status CONNECTING, ContextCreated 0, ContextCreated 1,
        NodeCreated 2, NodeCreated 3, NodeCreated 4, NodeCreated 5, SessionRequested 6]"
  by (simp add: connect_def good_connect_def fails_def
      connect_begin_def create_input_def create_output_def is_suspended_def resume_output_def
      create_analysers_def new_context_def new_node_def mic_setup_def open_session_def
      emit_def Let_def initial_def)



end
